theory Spec2Isabelle
  imports Main "HOL-Library.AList" "HOL-Library.Char_ord" "HOL-Library.List_Lexorder"
begin


section \<open>Errors and options\<close>

text \<open>
  A module is identified by its resolved id, a string. Module objects are shared by
  reference in the source; the model refers to them by id.
\<close>

type_synonym moduleId = string

text \<open>
  Every \<^verbatim>\<open>throw\<close> and every call of \<^verbatim>\<open>error(...)\<close> is a value of this type.
  \<^verbatim>\<open>error({code, message})\<close> with a literal object is \<open>RollupError\<close>; the two error
  objects built by helpers of \<^verbatim>\<open>utils/error\<close> keep the helper's arguments;
  \<^verbatim>\<open>throw new Error(msg)\<close> is \<open>JsError\<close>; reading a property of \<^verbatim>\<open>undefined\<close> is
  \<open>JsTypeError\<close>.
\<close>

datatype rollupError =
    RollupError (err_code: string) (err_message: string)
  | ErrCannotAssignModuleToChunk moduleId string string
  | ErrImplicitDependantIsNotIncluded moduleId
  | JsError string
  | JsTypeError

text \<open>
  \<^verbatim>\<open>ManualChunksOption\<close>: either an object from alias to module specifiers or a
  function from a module id to an alias or null. Both are truthy in JavaScript.
\<close>

datatype manualChunksOption =
    ManualChunksRecord "(string \<times> string list) list"
  | GetManualChunk "moduleId \<Rightarrow> string option"

text \<open>A plugin cache: plugin name to (key to [access counter, value]).\<close>

type_synonym serializablePluginCache = "(string \<times> (int \<times> string)) list"
type_synonym pluginCaches = "(string \<times> serializablePluginCache) list"

text \<open>\<^verbatim>\<open>options.cache\<close>: \<^verbatim>\<open>false\<close>, \<^verbatim>\<open>undefined\<close>, or a cache object whose
  \<^verbatim>\<open>plugins\<close> may be absent.\<close>

datatype cacheOption =
    CacheFalse
  | CacheUndefined
  | RollupCache (cache_plugins: "pluginCaches option")

record inputOptions =
  treeshake :: bool
  preserveModules :: bool
  inlineDynamicImports :: bool
  experimentalCacheExpiry :: int
  manualChunks :: "manualChunksOption option"
  options_cache :: cacheOption

text \<open>The part of the output \<^verbatim>\<open>config\<close> object that \<^verbatim>\<open>getManualChunks\<close> reads.\<close>

record genericConfig =
  config_manualChunks :: "manualChunksOption option"

section \<open>Output options: getManualChunks\<close>

text \<open>A name between double quotes, as the messages print option names.\<close>

definition quoted :: "string \<Rightarrow> string" where
  "quoted s = CHR 0x22 # s @ [CHR 0x22]"

definition getManualChunks :: "genericConfig \<Rightarrow> inputOptions \<Rightarrow> rollupError + manualChunksOption" where
  "getManualChunks config inputOptions =
     (let configManualChunks =
            (case config_manualChunks config of
               Some mc \<Rightarrow> Some mc
             | None \<Rightarrow> manualChunks inputOptions)
      in case configManualChunks of
           Some mc \<Rightarrow>
             if inlineDynamicImports inputOptions then
               Inl (RollupError ''INVALID_OPTION''
                      (quoted ''manualChunks'' @ '' option is not supported for '' @
                       quoted ''inlineDynamicImports'' @ ''.''))
             else if preserveModules inputOptions then
               Inl (RollupError ''INVALID_OPTION''
                      (quoted ''preserveModules'' @ '' does not support the '' @
                       quoted ''manualChunks'' @ '' option.''))
             else Inr mc
         | None \<Rightarrow> Inr (ManualChunksRecord []))"

section \<open>Modules\<close>

text \<open>
  The boolean flags of module objects and AST nodes that the build phases switch on in
  place. Modules are shared by reference, so the flags live in one store, the set of
  flags that are on, keyed by module id: \<open>IsEntryPoint m\<close> is \<^verbatim>\<open>m.isEntryPoint\<close>,
  \<open>IsExecuted m\<close> is \<^verbatim>\<open>m.isExecuted\<close>, \<open>IsIncluded m\<close> is what \<^verbatim>\<open>m.isIncluded()\<close>
  reports, \<open>ExportIncluded m x\<close> is the \<^verbatim>\<open>included\<close> flag of the variable exported by
  \<open>m\<close> as \<open>x\<close>, and \<open>NodeIncluded m n\<close> the flag of the \<open>n\<close>-th AST node of \<open>m\<close>.
\<close>

datatype flag =
    IsEntryPoint moduleId
  | IsExecuted moduleId
  | IsIncluded moduleId
  | ExportIncluded moduleId string
  | NodeIncluded moduleId nat

text \<open>The resolution of a dynamic import: a module, an external module, a string or null.\<close>

datatype resolution =
    ResolutionModule moduleId
  | ResolutionExternal moduleId
  | ResolutionString string
  | ResolutionNull

text \<open>\<^verbatim>\<open>module.preserveSignature\<close>: \<^verbatim>\<open>false\<close> or one of the mode strings.\<close>

datatype preserveSignatureOption =
    PreserveFalse
  | PreserveMode string

record importDescription =
  imp_name :: string
  imp_module :: moduleId
  imp_start :: nat

text \<open>
  The fields of an internal module that the graph reads. References to other modules are
  ids. \<open>resolvedIds\<close> maps an import source to the id of its resolved target (the only
  field of the resolved-id object that is read); a source without an entry reads as
  \<^verbatim>\<open>undefined\<close>.
\<close>

record moduleRec =
  m_id :: moduleId
  sources :: "string list"
  resolvedIds :: "string \<rightharpoonup> moduleId"
  dynamicImports :: "resolution list"
  dynamicImporters :: "string list"
  importers :: "string list"
  moduleSideEffects :: bool
  implicitlyLoadedAfter :: "moduleId list"
  implicitlyLoadedBefore :: "moduleId list"
  preserveSignature :: preserveSignatureOption
  exportNames :: "string list"
  importDescriptions :: "(string \<times> importDescription) list"
  includedDynamicImporters :: "moduleId list"
  execIndex :: nat

record externalRec =
  e_id :: moduleId
  e_dynamicImporters :: "string list"
  e_importers :: "string list"
  e_moduleSideEffects :: bool

datatype moduleNode =
    Module moduleRec
  | ExternalModule externalRec

text \<open>\<^verbatim>\<open>modulesById\<close>, a JavaScript Map: entries in insertion order, looked up by key.\<close>

type_synonym modulesById = "(moduleId \<times> moduleNode) list"

text \<open>The ids that the static imports of a module resolve to, in declaration order.\<close>

definition staticDependencies :: "moduleRec \<Rightarrow> moduleId list" where
  "staticDependencies module = List.map_filter (resolvedIds module) (sources module)"

section \<open>Manual chunk aliases\<close>

text \<open>
  \<^verbatim>\<open>Graph.addModuleToManualChunk\<close>, on the map \<^verbatim>\<open>manualChunkAliasByEntry\<close> (keyed by the
  module, here by its id). The result is the error or the updated map.
\<close>

definition addModuleToManualChunk ::
  "string \<Rightarrow> moduleId \<Rightarrow> (moduleId \<rightharpoonup> string) \<Rightarrow> rollupError + (moduleId \<rightharpoonup> string)" where
  "addModuleToManualChunk alias module manualChunkAliasByEntry =
     (case manualChunkAliasByEntry module of
        Some existingAlias \<Rightarrow>
          if existingAlias \<noteq> alias
          then Inl (ErrCannotAssignModuleToChunk module alias existingAlias)
          else Inr (manualChunkAliasByEntry(module \<mapsto> alias))
      | None \<Rightarrow> Inr (manualChunkAliasByEntry(module \<mapsto> alias)))"

text \<open>
  The two loops that call it. \<^verbatim>\<open>addManualChunks\<close> receives, for each alias, the modules
  the loader resolved for it (\<open>chunkEntries\<close>); \<^verbatim>\<open>assignManualChunks\<close> asks the callback
  for every internal module of \<^verbatim>\<open>modulesById\<close>. The first error ends the loop.
\<close>

fun addEntriesToManualChunk ::
  "string \<Rightarrow> moduleId list \<Rightarrow> (moduleId \<rightharpoonup> string) \<Rightarrow> rollupError + (moduleId \<rightharpoonup> string)" where
  "addEntriesToManualChunk alias [] aliases = Inr aliases"
| "addEntriesToManualChunk alias (entry # entries) aliases =
     (case addModuleToManualChunk alias entry aliases of
        Inl e \<Rightarrow> Inl e
      | Inr aliases' \<Rightarrow> addEntriesToManualChunk alias entries aliases')"

fun addManualChunks ::
  "(string \<times> moduleId list) list \<Rightarrow> (moduleId \<rightharpoonup> string) \<Rightarrow> rollupError + (moduleId \<rightharpoonup> string)" where
  "addManualChunks [] aliases = Inr aliases"
| "addManualChunks ((alias, entries) # chunkEntries) aliases =
     (case addEntriesToManualChunk alias entries aliases of
        Inl e \<Rightarrow> Inl e
      | Inr aliases' \<Rightarrow> addManualChunks chunkEntries aliases')"

fun assignManualChunks ::
  "(moduleId \<Rightarrow> string option) \<Rightarrow> moduleNode list \<Rightarrow> (moduleId \<rightharpoonup> string)
     \<Rightarrow> rollupError + (moduleId \<rightharpoonup> string)" where
  "assignManualChunks getManualChunk [] aliases = Inr aliases"
| "assignManualChunks getManualChunk (ExternalModule e # rest) aliases =
     assignManualChunks getManualChunk rest aliases"
| "assignManualChunks getManualChunk (Module m # rest) aliases =
     (case getManualChunk (m_id m) of
        Some manualChunkAlias \<Rightarrow>
          (case addModuleToManualChunk manualChunkAlias (m_id m) aliases of
             Inl e \<Rightarrow> Inl e
           | Inr aliases' \<Rightarrow> assignManualChunks getManualChunk rest aliases')
      | None \<Rightarrow> assignManualChunks getManualChunk rest aliases)"

section \<open>Module info\<close>

record moduleInfo =
  info_dynamicallyImportedIds :: "string list"
  info_dynamicImporters :: "string list"
  info_hasModuleSideEffects :: bool
  info_id :: moduleId
  info_implicitlyLoadedAfterOneOf :: "string list"
  info_implicitlyLoadedBefore :: "string list"
  info_importedIds :: "string list"
  info_importers :: "string list"
  info_isEntry :: bool
  info_isExternal :: bool

text \<open>
  The first loop of \<^verbatim>\<open>getModuleInfo\<close>: \<^verbatim>\<open>foundModule.resolvedIds[source].id\<close> for every
  source, pushed in order. A source without an entry makes the property read throw.
\<close>

fun collectImportedIds ::
  "(string \<rightharpoonup> moduleId) \<Rightarrow> string list \<Rightarrow> string list \<Rightarrow> rollupError + string list" where
  "collectImportedIds rids [] importedIds = Inr importedIds"
| "collectImportedIds rids (source # rest) importedIds =
     (case rids source of
        None \<Rightarrow> Inl JsTypeError
      | Some resolved \<Rightarrow> collectImportedIds rids rest (importedIds @ [resolved]))"

text \<open>The second loop: only resolutions that are modules or external modules are pushed.\<close>

fun collectDynamicallyImportedIds :: "resolution list \<Rightarrow> string list" where
  "collectDynamicallyImportedIds [] = []"
| "collectDynamicallyImportedIds (ResolutionModule i # rest) = i # collectDynamicallyImportedIds rest"
| "collectDynamicallyImportedIds (ResolutionExternal i # rest) = i # collectDynamicallyImportedIds rest"
| "collectDynamicallyImportedIds (ResolutionString s # rest) = collectDynamicallyImportedIds rest"
| "collectDynamicallyImportedIds (ResolutionNull # rest) = collectDynamicallyImportedIds rest"

text \<open>
  \<^verbatim>\<open>Graph.getModuleInfo\<close>. \<^verbatim>\<open>Array.prototype.sort\<close> sorts the module's own
  \<^verbatim>\<open>dynamicImporters\<close> and \<^verbatim>\<open>importers\<close> arrays in place, so the result carries the
  updated table next to the info object; its default order on strings is the
  lexicographic order of the characters, which is \<open>sort\<close> on \<open>string\<close>. The flag store gives
  \<^verbatim>\<open>isEntryPoint\<close>.
\<close>

definition getModuleInfo ::
  "flag set \<Rightarrow> modulesById \<Rightarrow> moduleId \<Rightarrow> rollupError + (moduleInfo \<times> modulesById)" where
  "getModuleInfo flags modulesById moduleId =
     (case map_of modulesById moduleId of
        None \<Rightarrow> Inl (JsError (''Unable to find module '' @ moduleId))
      | Some (Module foundModule) \<Rightarrow>
          (case collectImportedIds (resolvedIds foundModule) (sources foundModule) [] of
             Inl e \<Rightarrow> Inl e
           | Inr importedIds \<Rightarrow>
               let dynamicallyImportedIds =
                     collectDynamicallyImportedIds (dynamicImports foundModule);
                   sortedModule = foundModule
                     \<lparr>dynamicImporters := sort (dynamicImporters foundModule),
                      importers := sort (importers foundModule)\<rparr>
               in Inr (\<lparr>info_dynamicallyImportedIds = dynamicallyImportedIds,
                        info_dynamicImporters = dynamicImporters sortedModule,
                        info_hasModuleSideEffects = moduleSideEffects foundModule,
                        info_id = m_id foundModule,
                        info_implicitlyLoadedAfterOneOf = implicitlyLoadedAfter foundModule,
                        info_implicitlyLoadedBefore = implicitlyLoadedBefore foundModule,
                        info_importedIds = importedIds,
                        info_importers = importers sortedModule,
                        info_isEntry = (IsEntryPoint (m_id foundModule) \<in> flags),
                        info_isExternal = False\<rparr>,
                       AList.update moduleId (Module sortedModule) modulesById))
      | Some (ExternalModule foundModule) \<Rightarrow>
          let sortedModule = foundModule
                \<lparr>e_dynamicImporters := sort (e_dynamicImporters foundModule),
                 e_importers := sort (e_importers foundModule)\<rparr>
          in Inr (\<lparr>info_dynamicallyImportedIds = [],
                   info_dynamicImporters = e_dynamicImporters sortedModule,
                   info_hasModuleSideEffects = e_moduleSideEffects foundModule,
                   info_id = e_id foundModule,
                   info_implicitlyLoadedAfterOneOf = [],
                   info_implicitlyLoadedBefore = [],
                   info_importedIds = [],
                   info_importers = e_importers sortedModule,
                   info_isEntry = False,
                   info_isExternal = True\<rparr>,
                  AList.update moduleId (ExternalModule sortedModule) modulesById))"

text \<open>A module with no imports, for building examples.\<close>

definition emptyModule :: "moduleId \<Rightarrow> moduleRec" where
  "emptyModule i =
     \<lparr>m_id = i, sources = [], resolvedIds = Map.empty, dynamicImports = [],
      dynamicImporters = [], importers = [], moduleSideEffects = True,
      implicitlyLoadedAfter = [], implicitlyLoadedBefore = [],
      preserveSignature = PreserveMode ''strict'', exportNames = [],
      importDescriptions = [], includedDynamicImporters = [], execIndex = 0\<rparr>"

section \<open>Plugin cache\<close>

text \<open>
  A JavaScript object is a list of (key, value) pairs read with \<open>map_of\<close>.
  \<open>Object_keys\<close> gives its own keys, each once, in the order of the list (keys that look
  like array indices, which JavaScript enumerates first, are not set apart).
\<close>

definition Object_keys :: "('k \<times> 'v) list \<Rightarrow> 'k list" where
  "Object_keys obj = remdups (map fst obj)"

text \<open>Reading \<^verbatim>\<open>pluginCache[name][key]\<close>.\<close>

definition cacheEntry :: "pluginCaches \<Rightarrow> string \<Rightarrow> string \<Rightarrow> (int \<times> string) option" where
  "cacheEntry pluginCache name key =
     (case map_of pluginCache name of
        None \<Rightarrow> None
      | Some cache \<Rightarrow> map_of cache key)"

text \<open>
  The constructor's loop \<^verbatim>\<open>for (const key of Object.keys(cache)) cache[key][0]++\<close>, for
  every plugin name. (A key of the object always has a value; the \<open>None\<close> branches are
  never taken.)
\<close>

definition incrementEntry :: "string \<Rightarrow> serializablePluginCache \<Rightarrow> serializablePluginCache" where
  "incrementEntry key cache =
     (case map_of cache key of
        None \<Rightarrow> cache
      | Some (accessCount, v) \<Rightarrow> AList.update key (accessCount + 1, v) cache)"

definition incrementGroup :: "string \<Rightarrow> pluginCaches \<Rightarrow> pluginCaches" where
  "incrementGroup name pluginCache =
     (case map_of pluginCache name of
        None \<Rightarrow> pluginCache
      | Some cache \<Rightarrow>
          AList.update name (fold incrementEntry (Object_keys cache) cache) pluginCache)"

definition incrementAccessCounters :: "pluginCaches \<Rightarrow> pluginCaches" where
  "incrementAccessCounters pluginCache =
     fold incrementGroup (Object_keys pluginCache) pluginCache"

text \<open>
  The cache part of the \<^verbatim>\<open>Graph\<close> constructor: the value of \<^verbatim>\<open>this.pluginCache\<close>
  (\<open>None\<close> is \<^verbatim>\<open>undefined\<close>) after it. \<open>suppliedPluginCache\<close> is
  \<^verbatim>\<open>options.cache?.plugins || Object.create(null)\<close>.
\<close>

definition suppliedPluginCache :: "inputOptions \<Rightarrow> pluginCaches" where
  "suppliedPluginCache options =
     (case options_cache options of
        RollupCache (Some plugins) \<Rightarrow> plugins
      | _ \<Rightarrow> [])"

definition Graph_constructor_pluginCache :: "inputOptions \<Rightarrow> pluginCaches option" where
  "Graph_constructor_pluginCache options =
     (if options_cache options \<noteq> CacheFalse
      then Some (incrementAccessCounters (suppliedPluginCache options))
      else None)"

text \<open>
  The eviction loops of \<^verbatim>\<open>getCache\<close>. The inner loop carries the cache and
  \<^verbatim>\<open>allDeleted\<close>.
\<close>

definition evictEntry ::
  "int \<Rightarrow> string \<Rightarrow> serializablePluginCache \<times> bool \<Rightarrow> serializablePluginCache \<times> bool" where
  "evictEntry expiry key st =
     (case st of (cache, allDeleted) \<Rightarrow>
        (case map_of cache key of
           None \<Rightarrow> (cache, allDeleted)
         | Some (accessCount, v) \<Rightarrow>
             if accessCount \<ge> expiry then (AList.delete key cache, allDeleted)
             else (cache, False)))"

definition evictGroup :: "int \<Rightarrow> string \<Rightarrow> pluginCaches \<Rightarrow> pluginCaches" where
  "evictGroup expiry name pluginCache =
     (case map_of pluginCache name of
        None \<Rightarrow> pluginCache
      | Some cache \<Rightarrow>
          (case fold (evictEntry expiry) (Object_keys cache) (cache, True) of
             (cache', allDeleted) \<Rightarrow>
               if allDeleted then AList.delete name pluginCache
               else AList.update name cache' pluginCache))"

definition evictPluginCache :: "int \<Rightarrow> pluginCaches \<Rightarrow> pluginCaches" where
  "evictPluginCache expiry pluginCache =
     fold (evictGroup expiry) (Object_keys pluginCache) pluginCache"

text \<open>
  \<^verbatim>\<open>Graph.getCache\<close>: the returned object (modules serialised by the module's own
  \<^verbatim>\<open>toJSON\<close>, a parameter here) and the plugin cache, which is evicted in place.
\<close>

definition getCache ::
  "(moduleRec \<Rightarrow> 'j) \<Rightarrow> inputOptions \<Rightarrow> moduleRec list \<Rightarrow> pluginCaches option
     \<Rightarrow> 'j list \<times> pluginCaches option" where
  "getCache toJSON options mods pluginCache =
     (map toJSON mods,
      map_option (evictPluginCache (experimentalCacheExpiry options)) pluginCache)"

text \<open>
  What eviction leaves of an entry and of a group, as functions of what was there before;
  the loops above are compared with them.
\<close>

fun keepFresh :: "int \<Rightarrow> (int \<times> string) option \<Rightarrow> (int \<times> string) option" where
  "keepFresh expiry None = None"
| "keepFresh expiry (Some (n, v)) = (if n \<ge> expiry then None else Some (n, v))"

fun evictedGroup :: "int \<Rightarrow> serializablePluginCache option \<Rightarrow> serializablePluginCache option" where
  "evictedGroup expiry None = None"
| "evictedGroup expiry (Some c) =
     (case fold (evictEntry expiry) (Object_keys c) (c, True) of
        (c', allDeleted) \<Rightarrow> if allDeleted then None else Some c')"

text \<open>Options with a two-plugin cache, for examples.\<close>

definition exampleOptions :: inputOptions where
  "exampleOptions =
     \<lparr>treeshake = True, preserveModules = False, inlineDynamicImports = False,
      experimentalCacheExpiry = 10, manualChunks = None,
      options_cache = RollupCache (Some
        [(''p'', [(''k'', (9, ''v'')), (''l'', (3, ''w''))]), (''q'', [(''k'', (9, ''v''))])])\<rparr>"

section \<open>The graph\<close>

text \<open>A warning object handed to \<^verbatim>\<open>onwarn\<close>; \<open>w_pos\<close> is the module and position that
  \<^verbatim>\<open>module.warn\<close> attaches.\<close>

record rollupWarning =
  w_code :: string
  w_cycle :: "string list option"
  w_importer :: "string option"
  w_message :: string
  w_name :: "string option"
  w_source :: "string option"
  w_pos :: "(moduleId \<times> nat) option"

text \<open>
  The fields of \<^verbatim>\<open>Graph\<close> that the phases below read and write, together with the flag
  store of the modules and the log of the calls of \<^verbatim>\<open>options.onwarn\<close>, oldest first.
\<close>

record graph =
  entryModules :: "moduleRec list"
  implicitEntryModules :: "moduleRec list"
  modules :: "moduleRec list"
  externalModules :: "externalRec list"
  needsTreeshakingPass :: bool
  flagsOn :: "flag set"
  warnings :: "rollupWarning list"
  manualChunkModulesByAlias :: "(string \<times> moduleRec list) list"
  manualChunkAliasByModule :: "moduleId \<rightharpoonup> string"

section \<open>Inclusion: includeStatements\<close>

text \<open>
  The methods of \<^verbatim>\<open>Module\<close> and \<^verbatim>\<open>ExternalModule\<close> and the helper of
  \<^verbatim>\<open>utils/traverseStaticDependencies\<close> that \<^verbatim>\<open>includeStatements\<close> calls. Their code is
  not part of the graph; each is a parameter that updates the graph state
  (\<open>m_include\<close> is \<^verbatim>\<open>module.include()\<close>).
\<close>

record inclusionMethods =
  includeAllExports :: "moduleRec \<Rightarrow> graph \<Rightarrow> graph"
  markModuleAndImpureDependenciesAsExecuted :: "moduleRec \<Rightarrow> graph \<Rightarrow> graph"
  m_include :: "moduleRec \<Rightarrow> graph \<Rightarrow> graph"
  includeAllInBundle :: "moduleRec \<Rightarrow> graph \<Rightarrow> graph"
  warnUnusedImports :: "externalRec \<Rightarrow> graph \<Rightarrow> graph"

text \<open>The first loop, over \<^verbatim>\<open>[...this.entryModules, ...this.implicitEntryModules]\<close>.\<close>

fun includeEntryModules :: "inclusionMethods \<Rightarrow> moduleRec list \<Rightarrow> graph \<Rightarrow> graph" where
  "includeEntryModules M [] g = g"
| "includeEntryModules M (module # rest) g =
     includeEntryModules M rest
       (if preserveSignature module \<noteq> PreserveFalse
        then includeAllExports M module g
        else markModuleAndImpureDependenciesAsExecuted M module g)"

text \<open>One pass over \<^verbatim>\<open>this.modules\<close>: \<^verbatim>\<open>if (module.isExecuted) module.include()\<close>. The
  flag is read when the module's turn comes.\<close>

fun includePass :: "inclusionMethods \<Rightarrow> moduleRec list \<Rightarrow> graph \<Rightarrow> graph" where
  "includePass M [] g = g"
| "includePass M (module # rest) g =
     includePass M rest
       (if IsExecuted (m_id module) \<in> flagsOn g then m_include M module g else g)"

text \<open>
  The \<^verbatim>\<open>do ... while (this.needsTreeshakingPass)\<close> loop. It returns the pass counter
  and the graph; \<open>None\<close> means that the loop does not end.
\<close>

partial_function (option) treeshakingLoop ::
  "inclusionMethods \<Rightarrow> nat \<Rightarrow> graph \<Rightarrow> (nat \<times> graph) option" where
  "treeshakingLoop M treeshakingPass g =
     (let g1 = g\<lparr>needsTreeshakingPass := False\<rparr>;
          g2 = includePass M (modules g1) g1
      in if needsTreeshakingPass g2
         then treeshakingLoop M (treeshakingPass + 1) g2
         else Some (treeshakingPass + 1, g2))"

declare treeshakingLoop.simps [code]

text \<open>The last loop: the dependants of every implicit entry module.\<close>

fun checkDependants :: "flag set \<Rightarrow> moduleId list \<Rightarrow> rollupError + unit" where
  "checkDependants flags [] = Inr ()"
| "checkDependants flags (dependant # rest) =
     (if \<not> (IsEntryPoint dependant \<in> flags \<or> IsIncluded dependant \<in> flags)
      then Inl (ErrImplicitDependantIsNotIncluded dependant)
      else checkDependants flags rest)"

fun checkImplicitEntryModules :: "flag set \<Rightarrow> moduleRec list \<Rightarrow> rollupError + unit" where
  "checkImplicitEntryModules flags [] = Inr ()"
| "checkImplicitEntryModules flags (module # rest) =
     (case checkDependants flags (implicitlyLoadedAfter module) of
        Inl e \<Rightarrow> Inl e
      | Inr u \<Rightarrow> checkImplicitEntryModules flags rest)"

text \<open>
  \<^verbatim>\<open>Graph.includeStatements\<close>. \<open>includeStatements_marking\<close> is the function up to and
  including the unused-import warnings, \<open>includeStatements\<close> adds the final check.
\<close>

definition includeStatements_marking ::
  "inclusionMethods \<Rightarrow> inputOptions \<Rightarrow> graph \<Rightarrow> graph option" where
  "includeStatements_marking M options g =
     (let g1 = includeEntryModules M (entryModules g @ implicitEntryModules g) g;
          marked =
            (if treeshake options
             then map_option snd (treeshakingLoop M 1 g1)
             else Some (fold (includeAllInBundle M) (modules g1) g1))
      in map_option (\<lambda>g2. fold (warnUnusedImports M) (externalModules g2) g2) marked)"

definition includeStatements ::
  "inclusionMethods \<Rightarrow> inputOptions \<Rightarrow> graph \<Rightarrow> (rollupError + graph) option" where
  "includeStatements M options g =
     map_option
       (\<lambda>g3. case checkImplicitEntryModules (flagsOn g3) (implicitEntryModules g3) of
                Inl e \<Rightarrow> Inl e
              | Inr u \<Rightarrow> Inr g3)
       (includeStatements_marking M options g)"

text \<open>
  Modelled from the spec: the modules that \<^verbatim>\<open>markModuleAndImpureDependenciesAsExecuted\<close>
  of \<^verbatim>\<open>utils/traverseStaticDependencies\<close> reaches from a module. A module of the graph
  is impure when it has side effects (\<open>hasSideEffects\<close>; an external module is not in
  \<^verbatim>\<open>this.modules\<close> and never counts). \<open>impurelyReached ms module d\<close> says that \<open>d\<close> is an
  impure static dependency of \<open>module\<close>, or of a module reached in this way. \<open>impureClosure\<close>
  computes these modules: it adds the impure static dependencies of the modules reached so
  far until there is none to add.
\<close>

definition hasSideEffects :: "moduleRec list \<Rightarrow> moduleId \<Rightarrow> bool" where
  "hasSideEffects ms i \<longleftrightarrow> (\<exists>m \<in> set ms. m_id m = i \<and> moduleSideEffects m)"

definition dependenciesOf :: "moduleRec list \<Rightarrow> moduleId \<Rightarrow> moduleId list" where
  "dependenciesOf ms i = concat (map staticDependencies (filter (\<lambda>m. m_id m = i) ms))"

inductive impurelyReached :: "moduleRec list \<Rightarrow> moduleRec \<Rightarrow> moduleId \<Rightarrow> bool"
  for ms :: "moduleRec list" and module :: moduleRec where
  direct: "d \<in> set (staticDependencies module) \<Longrightarrow> hasSideEffects ms d
     \<Longrightarrow> impurelyReached ms module d"
| further: "impurelyReached ms module i \<Longrightarrow> d \<in> set (dependenciesOf ms i) \<Longrightarrow> hasSideEffects ms d
     \<Longrightarrow> impurelyReached ms module d"

definition impureFrontier :: "moduleRec list \<Rightarrow> moduleId list \<Rightarrow> moduleId list" where
  "impureFrontier ms reached =
     filter (\<lambda>d. hasSideEffects ms d \<and> d \<notin> set reached)
       (remdups (concat (map (dependenciesOf ms) reached)))"

function impureClosure :: "moduleRec list \<Rightarrow> moduleId list \<Rightarrow> moduleId list" where
  "impureClosure ms reached =
     (if impureFrontier ms reached = [] then reached
      else impureClosure ms (reached @ impureFrontier ms reached))"
  by pat_completeness auto
termination
proof (relation "measure (\<lambda>(ms, reached). card (m_id ` set ms - set reached))")
  show "wf (measure (\<lambda>(ms, reached). card (m_id ` set ms - set reached)))"
    by simp
next
  fix ms :: "moduleRec list" and reached :: "moduleId list"
  assume more: "impureFrontier ms reached \<noteq> []"
  then obtain d where d: "d \<in> set (impureFrontier ms reached)"
    by (cases "impureFrontier ms reached") auto
  then have "d \<in> m_id ` set ms" "d \<notin> set reached"
    by (auto simp: impureFrontier_def hasSideEffects_def)
  with d have "m_id ` set ms - set (reached @ impureFrontier ms reached)
      \<subset> m_id ` set ms - set reached"
    by auto
  then have "card (m_id ` set ms - set (reached @ impureFrontier ms reached))
      < card (m_id ` set ms - set reached)"
    by (simp add: psubset_card_mono)
  then show "((ms, reached @ impureFrontier ms reached), (ms, reached))
      \<in> measure (\<lambda>(ms, reached). card (m_id ` set ms - set reached))"
    by simp
qed

definition impureDependencies :: "moduleRec list \<Rightarrow> moduleRec \<Rightarrow> moduleId list" where
  "impureDependencies ms module =
     impureClosure ms (filter (hasSideEffects ms) (remdups (staticDependencies module)))"

text \<open>
  Modelled from the spec: the contract of the two seed helpers, whose code is not in the
  graph. \<^verbatim>\<open>includeAllExports\<close> switches on the flag of every export of the module and
  switches no flag off. \<^verbatim>\<open>markModuleAndImpureDependenciesAsExecuted\<close> switches on
  \<^verbatim>\<open>isExecuted\<close> of the module and of the modules reached from it through impure static
  dependencies, and changes no other flag.
\<close>

definition seedContract :: "inclusionMethods \<Rightarrow> bool" where
  "seedContract M \<longleftrightarrow>
     (\<forall>module g.
        flagsOn g \<subseteq> flagsOn (includeAllExports M module g) \<and>
        (\<forall>x \<in> set (exportNames module).
           ExportIncluded (m_id module) x \<in> flagsOn (includeAllExports M module g))) \<and>
     (\<forall>module g.
        flagsOn (markModuleAndImpureDependenciesAsExecuted M module g)
          = flagsOn g \<union> IsExecuted ` set (m_id module # impureDependencies (modules g) module))"

text \<open>
  The hypothesis on the local include step of the modules \<open>ms\<close> of the graph, over a set
  \<open>U\<close> of flags: the step leaves \<^verbatim>\<open>this.modules\<close> alone, is monotonic (flags only flip
  off to on, within \<open>U\<close>), and sets \<^verbatim>\<open>needsTreeshakingPass\<close> only when it has switched a
  flag on, that is, it reports new inclusions only when there are some.
\<close>

definition monotonicInclude :: "flag set \<Rightarrow> moduleRec list \<Rightarrow> inclusionMethods \<Rightarrow> bool" where
  "monotonicInclude U ms M \<longleftrightarrow>
     (\<forall>g. modules g = ms \<and> flagsOn g \<subseteq> U \<longrightarrow>
        (\<forall>module \<in> set ms.
           modules (m_include M module g) = ms \<and>
           flagsOn g \<subseteq> flagsOn (m_include M module g) \<and>
           flagsOn (m_include M module g) \<subseteq> U \<and>
           (needsTreeshakingPass (m_include M module g) \<and> \<not> needsTreeshakingPass g
              \<longrightarrow> flagsOn (m_include M module g) \<noteq> flagsOn g)))"

text \<open>
  An example for the inclusion phase: entry \<^verbatim>\<open>/a.js\<close> imports \<^verbatim>\<open>/b.js\<close>, and \<^verbatim>\<open>/c.js\<close> is
  an implicit entry, loaded after \<^verbatim>\<open>/a.js\<close>, whose signature is not preserved. The example
  methods: \<^verbatim>\<open>includeAllExports\<close> marks the module executed and its exports included and
  reports new work; \<^verbatim>\<open>markModuleAndImpureDependenciesAsExecuted\<close> marks the module and the
  modules reached from it through impure static dependencies executed; including a module
  marks it included and its imports executed, and reports new work when the module was not
  included before.
\<close>

definition exampleA :: moduleRec where
  "exampleA = (emptyModule ''/a.js'')
     \<lparr>sources := [''./b''], resolvedIds := [''./b'' \<mapsto> ''/b.js''], exportNames := [''main''],
      execIndex := 1\<rparr>"

definition exampleB :: moduleRec where
  "exampleB = (emptyModule ''/b.js'')\<lparr>importers := [''/a.js''], exportNames := [''helper'']\<rparr>"

definition exampleC :: moduleRec where
  "exampleC = (emptyModule ''/c.js'')
     \<lparr>implicitlyLoadedAfter := [''/a.js''], preserveSignature := PreserveFalse,
      exportNames := [''unused''], execIndex := 2\<rparr>"

definition exampleMethods :: inclusionMethods where
  "exampleMethods =
     \<lparr>includeAllExports = (\<lambda>module g.
        g\<lparr>flagsOn := insert (IsExecuted (m_id module))
              (flagsOn g \<union> ExportIncluded (m_id module) ` set (exportNames module)),
          needsTreeshakingPass := True\<rparr>),
      markModuleAndImpureDependenciesAsExecuted = (\<lambda>module g.
        g\<lparr>flagsOn := flagsOn g
              \<union> IsExecuted ` set (m_id module # impureDependencies (modules g) module)\<rparr>),
      m_include = (\<lambda>module g.
        if IsIncluded (m_id module) \<in> flagsOn g then g
        else g\<lparr>flagsOn := insert (IsIncluded (m_id module))
                   (flagsOn g \<union> IsExecuted ` set (List.map_filter (resolvedIds module) (sources module))),
               needsTreeshakingPass := True\<rparr>),
      includeAllInBundle = (\<lambda>module g.
        g\<lparr>flagsOn := insert (IsIncluded (m_id module)) (flagsOn g)\<rparr>),
      warnUnusedImports = (\<lambda>externalModule g. g)\<rparr>"

definition exampleGraph :: graph where
  "exampleGraph =
     \<lparr>entryModules = [exampleA], implicitEntryModules = [exampleC],
      modules = [exampleB, exampleA, exampleC], externalModules = [],
      needsTreeshakingPass = False, flagsOn = {IsEntryPoint ''/a.js''}, warnings = [],
      manualChunkModulesByAlias = [], manualChunkAliasByModule = Map.empty\<rparr>"

definition exampleFlags :: "flag set" where
  "exampleFlags =
     {IsEntryPoint ''/a.js'', IsExecuted ''/a.js'', IsExecuted ''/b.js'', IsExecuted ''/c.js'',
      IsIncluded ''/a.js'', IsIncluded ''/b.js'', IsIncluded ''/c.js'',
      ExportIncluded ''/a.js'' ''main''}"

text \<open>
  A second example for the seed: entry \<^verbatim>\<open>/a.js\<close> as before, and an implicit entry
  \<^verbatim>\<open>/d.js\<close> whose signature is not preserved. \<^verbatim>\<open>/d.js\<close> imports \<^verbatim>\<open>/e.js\<close>, which has side
  effects and imports \<^verbatim>\<open>/g.js\<close>, which has side effects too; it also imports \<^verbatim>\<open>/f.js\<close>,
  which has none and imports \<^verbatim>\<open>/h.js\<close>, and an external module.
\<close>

definition emptyGraph :: graph where
  "emptyGraph =
     \<lparr>entryModules = [], implicitEntryModules = [], modules = [], externalModules = [],
      needsTreeshakingPass = False, flagsOn = {}, warnings = [],
      manualChunkModulesByAlias = [], manualChunkAliasByModule = Map.empty\<rparr>"

definition seedD :: moduleRec where
  "seedD = (emptyModule ''/d.js'')
     \<lparr>sources := [''./e'', ''./f'', ''ext''],
      resolvedIds := [''./e'' \<mapsto> ''/e.js'', ''./f'' \<mapsto> ''/f.js'', ''ext'' \<mapsto> ''ext''],
      preserveSignature := PreserveFalse, exportNames := [''unused'']\<rparr>"

definition seedE :: moduleRec where
  "seedE = (emptyModule ''/e.js'')\<lparr>sources := [''./g''], resolvedIds := [''./g'' \<mapsto> ''/g.js'']\<rparr>"

definition seedF :: moduleRec where
  "seedF = (emptyModule ''/f.js'')
     \<lparr>sources := [''./h''], resolvedIds := [''./h'' \<mapsto> ''/h.js''], moduleSideEffects := False\<rparr>"

definition seedGraph :: graph where
  "seedGraph =
     emptyGraph
       \<lparr>entryModules := [exampleA], implicitEntryModules := [seedD],
        modules := [emptyModule ''/g.js'', seedE, emptyModule ''/h.js'', seedF, seedD,
                    exampleB, exampleA]\<rparr>"

definition seedExample :: graph where
  "seedExample =
     includeEntryModules exampleMethods
       (entryModules seedGraph @ implicitEntryModules seedGraph) seedGraph"

text \<open>The example graph after the seed loop of \<^verbatim>\<open>includeStatements\<close>.\<close>

definition exampleSeeded :: graph where
  "exampleSeeded =
     includeEntryModules exampleMethods
       (entryModules exampleGraph @ implicitEntryModules exampleGraph) exampleGraph"

section \<open>Linking and ordering: linkAndOrderModules\<close>

text \<open>
  The per-module binding state that \<^verbatim>\<open>linkDependencies\<close>, \<^verbatim>\<open>bindReferences\<close> and
  \<^verbatim>\<open>getVariableForExportName\<close> work on belongs to \<^verbatim>\<open>Module\<close> and is abstract here
  (type \<open>'b\<close>). A method of \<^verbatim>\<open>Module\<close> may end in a fatal \<^verbatim>\<open>error(...)\<close>; the graph does
  not catch it, so \<^verbatim>\<open>linkDependencies\<close> and \<^verbatim>\<open>bindReferences\<close> return an error or the
  new state. \<^verbatim>\<open>analyseModuleExecution\<close> of \<^verbatim>\<open>utils/executionOrder\<close> returns the ordered
  modules and the cycle paths; \<^verbatim>\<open>relativeId\<close> shortens an id for a message.
\<close>

record 'b linkMethods =
  linkDependencies :: "moduleRec \<Rightarrow> 'b \<Rightarrow> rollupError + 'b"
  analyseModuleExecution :: "'b \<Rightarrow> moduleRec list \<Rightarrow> moduleRec list \<times> string list list"
  bindReferences :: "moduleRec \<Rightarrow> 'b \<Rightarrow> rollupError + 'b"
  getVariableForExportName :: "'b \<Rightarrow> moduleId \<Rightarrow> string \<Rightarrow> bool"
  relativeId :: "string \<Rightarrow> string"

text \<open>A loop \<^verbatim>\<open>for (const module of ms) module.method()\<close>; the first error ends it.\<close>

fun forEachModule ::
  "(moduleRec \<Rightarrow> 'b \<Rightarrow> rollupError + 'b) \<Rightarrow> moduleRec list \<Rightarrow> 'b \<Rightarrow> rollupError + 'b" where
  "forEachModule method [] b = Inr b"
| "forEachModule method (module # rest) b =
     (case method module b of
        Inl e \<Rightarrow> Inl e
      | Inr b' \<Rightarrow> forEachModule method rest b')"

text \<open>\<^verbatim>\<open>Array.prototype.join\<close> on strings.\<close>

fun join :: "string \<Rightarrow> string list \<Rightarrow> string" where
  "join sep [] = []"
| "join sep [x] = x"
| "join sep (x # y # rest) = x @ sep @ join sep (y # rest)"

text \<open>The object passed to \<^verbatim>\<open>onwarn\<close> for one cycle path; \<^verbatim>\<open>cyclePath[0]\<close> of an empty
  path is \<^verbatim>\<open>undefined\<close>.\<close>

definition circularDependencyWarning :: "string list \<Rightarrow> rollupWarning" where
  "circularDependencyWarning cyclePath =
     \<lparr>w_code = ''CIRCULAR_DEPENDENCY'',
      w_cycle = Some cyclePath,
      w_importer = (case cyclePath of [] \<Rightarrow> None | first # rest \<Rightarrow> Some first),
      w_message = ''Circular dependency: '' @ join '' -> '' cyclePath,
      w_name = None, w_source = None, w_pos = None\<rparr>"

text \<open>\<^verbatim>\<open>Graph.warnForMissingExports\<close>: the warnings of one module, in the order of the keys
  of \<^verbatim>\<open>importDescriptions\<close>, and of all modules.\<close>

definition missingExportWarnings :: "'b linkMethods \<Rightarrow> 'b \<Rightarrow> moduleRec \<Rightarrow> rollupWarning list" where
  "missingExportWarnings L b module =
     concat (map (\<lambda>importName.
        case map_of (importDescriptions module) importName of
          None \<Rightarrow> []
        | Some importDescription \<Rightarrow>
            if imp_name importDescription \<noteq> ''*'' \<and>
               \<not> getVariableForExportName L b (imp_module importDescription)
                    (imp_name importDescription)
            then [\<lparr>w_code = ''NON_EXISTENT_EXPORT'',
                   w_cycle = None, w_importer = None,
                   w_message = ''Non-existent export '' @ [CHR 0x27] @ imp_name importDescription
                     @ [CHR 0x27] @ '' is imported from ''
                     @ relativeId L (imp_module importDescription),
                   w_name = Some (imp_name importDescription),
                   w_source = Some (imp_module importDescription),
                   w_pos = Some (m_id module, imp_start importDescription)\<rparr>]
            else [])
        (Object_keys (importDescriptions module)))"

definition warnForMissingExports :: "'b linkMethods \<Rightarrow> 'b \<Rightarrow> graph \<Rightarrow> graph" where
  "warnForMissingExports L b g =
     g\<lparr>warnings := warnings g @ concat (map (missingExportWarnings L b) (modules g))\<rparr>"

text \<open>
  \<^verbatim>\<open>Graph.linkAndOrderModules\<close>. The function itself has no error exit; it ends early
  only with the error of a module method, and then the result keeps that error and the
  warnings handed to \<^verbatim>\<open>onwarn\<close> up to then.
\<close>

definition linkAndOrderModules ::
  "'b linkMethods \<Rightarrow> graph \<Rightarrow> 'b \<Rightarrow> (rollupError \<times> rollupWarning list) + (graph \<times> 'b)" where
  "linkAndOrderModules L g b =
     (case forEachModule (linkDependencies L) (modules g) b of
        Inl e \<Rightarrow> Inl (e, warnings g)
      | Inr b1 \<Rightarrow>
          let (orderedModules, cyclePaths) = analyseModuleExecution L b1 (entryModules g);
              g1 = g\<lparr>warnings := warnings g @ map circularDependencyWarning cyclePaths\<rparr>;
              g2 = g1\<lparr>modules := orderedModules\<rparr>
          in case forEachModule (bindReferences L) (modules g2) b1 of
               Inl e \<Rightarrow> Inl (e, warnings g2)
             | Inr b2 \<Rightarrow> Inr (warnForMissingExports L b2 g2, b2))"

text \<open>
  Modelled from the spec: an execution-order analysis as section 4.2 describes it, for
  the examples. The binding state is the table that \<^verbatim>\<open>linkDependencies\<close> fills (each
  linked module with the ids its static imports resolve to) and the list of the modules
  whose references are bound, in the order of binding. The traversal is depth
  first from each entry, in entry order, along the static imports in declaration order;
  a module is appended to the order after its dependencies; an import of a module that
  is on the current path is not followed and the part of the path from that module on is
  recorded as a cycle. The first argument bounds the depth.
\<close>

type_synonym linkTable = "(moduleId \<times> moduleRec \<times> moduleId list) list"

fun analyseFrom ::
  "nat \<Rightarrow> linkTable \<Rightarrow> moduleId list \<Rightarrow> moduleId \<Rightarrow> moduleRec list \<times> string list list
     \<Rightarrow> moduleRec list \<times> string list list" where
  "analyseFrom 0 table path i acc = acc"
| "analyseFrom (Suc depth) table path i acc =
     (case acc of (ordered, cyclePaths) \<Rightarrow>
        if i \<in> set path then (ordered, cyclePaths @ [dropWhile (\<lambda>j. j \<noteq> i) path])
        else if i \<in> set (map m_id ordered) then (ordered, cyclePaths)
        else (case map_of table i of
                None \<Rightarrow> (ordered, cyclePaths)
              | Some (module, dependencies) \<Rightarrow>
                  (case fold (analyseFrom depth table (path @ [i])) dependencies (ordered, cyclePaths) of
                     (ordered', cyclePaths') \<Rightarrow> (ordered' @ [module], cyclePaths'))))"

definition exampleLinkMethods :: "(linkTable \<times> moduleId list) linkMethods" where
  "exampleLinkMethods =
     \<lparr>linkDependencies = (\<lambda>module (table, bound).
        Inr (AList.update (m_id module) (module, staticDependencies module) table, bound)),
      analyseModuleExecution = (\<lambda>(table, bound) entries.
        fold (analyseFrom (Suc (length table)) table []) (map m_id entries) ([], [])),
      bindReferences = (\<lambda>module (table, bound). Inr (table, bound @ [m_id module])),
      getVariableForExportName = (\<lambda>(table, bound) module exportName.
        module \<in> set bound \<and> exportName \<noteq> ''missing''),
      relativeId = (\<lambda>i. i)\<rparr>"

text \<open>The scenario of the spec: entry \<^verbatim>\<open>A\<close> imports \<^verbatim>\<open>B\<close>, which imports \<^verbatim>\<open>A\<close>; \<^verbatim>\<open>B\<close> also
  imports a name that \<^verbatim>\<open>A\<close> does not export.\<close>

definition cycleA :: moduleRec where
  "cycleA = (emptyModule ''A'')\<lparr>sources := [''./B''], resolvedIds := [''./B'' \<mapsto> ''B'']\<rparr>"

definition cycleB :: moduleRec where
  "cycleB = (emptyModule ''B'')
     \<lparr>sources := [''./A''], resolvedIds := [''./A'' \<mapsto> ''A''],
      importDescriptions :=
        [(''m'', \<lparr>imp_name = ''missing'', imp_module = ''A'', imp_start = 7\<rparr>)]\<rparr>"

definition cycleGraph :: graph where
  "cycleGraph = emptyGraph\<lparr>entryModules := [cycleA], modules := [cycleA, cycleB]\<rparr>"

section \<open>Chunks: generateChunks\<close>

text \<open>
  The fields of a \<^verbatim>\<open>Chunk\<close> that the graph fixes when it creates one: the module list
  given to the constructor, the entry modules, and the manual chunk alias (\<open>None\<close> is
  \<^verbatim>\<open>null\<close>).
\<close>

record chunk =
  orderedModules :: "moduleRec list"
  chunk_entryModules :: "moduleRec list"
  manualChunkAlias :: "string option"

text \<open>
  What the graph does not decide: the entry modules that the \<^verbatim>\<open>Chunk\<close> constructor
  derives from a module list, \<^verbatim>\<open>getChunkAssignments\<close> of \<^verbatim>\<open>utils/chunkAssignment\<close>, and
  the facades a chunk generates.
\<close>

record chunkMethods =
  initialEntryModules :: "moduleRec list \<Rightarrow> moduleRec list"
  getChunkAssignments ::
    "moduleRec list \<Rightarrow> (string \<times> moduleRec list) list \<Rightarrow> (moduleId \<rightharpoonup> string)
       \<Rightarrow> moduleRec list list \<times> (string \<times> moduleRec list) list"
  generateFacades :: "chunk \<Rightarrow> chunk list"

definition newChunk :: "chunkMethods \<Rightarrow> moduleRec list \<Rightarrow> string option \<Rightarrow> chunk" where
  "newChunk C ms manualChunkAlias' =
     \<lparr>orderedModules = ms, chunk_entryModules = initialEntryModules C ms,
      manualChunkAlias = manualChunkAlias'\<rparr>"

text \<open>
  Modelled from the spec: \<^verbatim>\<open>sortByExecutionOrder\<close> of \<^verbatim>\<open>utils/executionOrder\<close>, which is
  not in the graph's file, orders the modules of a chunk by the execution order that the
  analysis assigned (\<open>execIndex\<close>).
\<close>

definition sortByExecutionOrder :: "moduleRec list \<Rightarrow> moduleRec list" where
  "sortByExecutionOrder ms = sort_key execIndex ms"

text \<open>The filter of the preserve-modules branch.\<close>

definition needsOwnChunk :: "graph \<Rightarrow> moduleRec \<Rightarrow> bool" where
  "needsOwnChunk g module \<longleftrightarrow>
     IsIncluded (m_id module) \<in> flagsOn g \<or>
     IsEntryPoint (m_id module) \<in> flagsOn g \<or>
     length (includedDynamicImporters module) > 0"

fun preserveModulesChunks :: "chunkMethods \<Rightarrow> graph \<Rightarrow> moduleRec list \<Rightarrow> chunk list" where
  "preserveModulesChunks C g [] = []"
| "preserveModulesChunks C g (module # rest) =
     (if needsOwnChunk g module
      then (newChunk C [module] None)\<lparr>chunk_entryModules := [module]\<rparr>
             # preserveModulesChunks C g rest
      else preserveModulesChunks C g rest)"

text \<open>
  The value of the local \<^verbatim>\<open>chunks\<close> of \<^verbatim>\<open>Graph.generateChunks\<close> before the facades are
  added, and the whole result. (\<^verbatim>\<open>chunk.link()\<close> sets fields of the chunk that are not
  modelled. The sort is in place: with \<^verbatim>\<open>inlineDynamicImports\<close> it also reorders
  \<^verbatim>\<open>this.modules\<close>, which \<^verbatim>\<open>generateChunks\<close> does not read again.)
\<close>

definition generateChunks_chunks :: "chunkMethods \<Rightarrow> inputOptions \<Rightarrow> graph \<Rightarrow> chunk list" where
  "generateChunks_chunks C options g =
     (if preserveModules options then preserveModulesChunks C g (modules g)
      else
        let (chunkedModules, modulesByManualChunk) =
              (if inlineDynamicImports options then ([modules g], [])
               else getChunkAssignments C (entryModules g) (manualChunkModulesByAlias g)
                      (manualChunkAliasByModule g))
        in map (\<lambda>chunkModules. newChunk C (sortByExecutionOrder chunkModules) None) chunkedModules
           @ concat (map (\<lambda>alias.
               case map_of modulesByManualChunk alias of
                 None \<Rightarrow> []
               | Some chunkModules \<Rightarrow> [newChunk C (sortByExecutionOrder chunkModules) (Some alias)])
               (Object_keys modulesByManualChunk)))"

definition generateChunks :: "chunkMethods \<Rightarrow> inputOptions \<Rightarrow> graph \<Rightarrow> chunk list" where
  "generateChunks C options g =
     (let chunks = generateChunks_chunks C options g;
          facades = concat (map (generateFacades C) chunks)
      in chunks @ facades)"

text \<open>Example chunk methods, and the example graph with \<^verbatim>\<open>/b.js\<close> left out of the output
  while \<^verbatim>\<open>/a.js\<close> and \<^verbatim>\<open>/c.js\<close> are included.\<close>

definition exampleChunkMethods :: chunkMethods where
  "exampleChunkMethods =
     \<lparr>initialEntryModules = (\<lambda>ms. []),
      getChunkAssignments = (\<lambda>entries byAlias aliasOf. (map (\<lambda>m. [m]) entries, byAlias)),
      generateFacades = (\<lambda>c. [])\<rparr>"

definition exampleIncluded :: graph where
  "exampleIncluded =
     exampleGraph\<lparr>flagsOn := {IsEntryPoint ''/a.js'', IsIncluded ''/a.js'', IsIncluded ''/c.js''}\<rparr>"

text \<open>Methods whose include step always reports new inclusions and includes nothing.\<close>

definition restlessMethods :: inclusionMethods where
  "restlessMethods = exampleMethods\<lparr>m_include := (\<lambda>module g. g\<lparr>needsTreeshakingPass := True\<rparr>)\<rparr>"

section \<open>Output options: manual chunks against the other modes\<close>

text \<open>
  C10. When a \<^verbatim>\<open>manualChunks\<close> option is supplied, by the output config or inherited
  from the input options, together with \<^verbatim>\<open>inlineDynamicImports\<close> or with
  \<^verbatim>\<open>preserveModules\<close>, normalization fails with an error whose code is
  \<^verbatim>\<open>INVALID_OPTION\<close>; when neither supplies one, the result is the empty mapping.
\<close>

theorem getManualChunks_rejects_or_defaults:
  "((config_manualChunks config \<noteq> None \<or> manualChunks inputOptions \<noteq> None) \<and>
    (inlineDynamicImports inputOptions \<or> preserveModules inputOptions)
      \<longrightarrow> (\<exists>msg. getManualChunks config inputOptions = Inl (RollupError ''INVALID_OPTION'' msg)))
   \<and> (config_manualChunks config = None \<and> manualChunks inputOptions = None
      \<longrightarrow> getManualChunks config inputOptions = Inr (ManualChunksRecord []))"
  by (auto simp: getManualChunks_def split: option.splits)

theorem getManualChunks_rejects_or_defaults_witness:
  "getManualChunks \<lparr>config_manualChunks = Some (ManualChunksRecord [(''vendor'', [''lodash''])])\<rparr>
     \<lparr>treeshake = True, preserveModules = False, inlineDynamicImports = True,
      experimentalCacheExpiry = 10, manualChunks = None, options_cache = CacheUndefined\<rparr>
     = Inl (RollupError ''INVALID_OPTION''
              (quoted ''manualChunks'' @ '' option is not supported for '' @
                       quoted ''inlineDynamicImports'' @ ''.''))
   \<and> getManualChunks \<lparr>config_manualChunks = None\<rparr>
     \<lparr>treeshake = True, preserveModules = True, inlineDynamicImports = False,
      experimentalCacheExpiry = 10, manualChunks = None, options_cache = CacheUndefined\<rparr>
     = Inr (ManualChunksRecord [])"
  using getManualChunks_rejects_or_defaults
    [of "\<lparr>config_manualChunks = Some (ManualChunksRecord [(''vendor'', [''lodash''])])\<rparr>"
        "\<lparr>treeshake = True, preserveModules = False, inlineDynamicImports = True,
          experimentalCacheExpiry = 10, manualChunks = None, options_cache = CacheUndefined\<rparr>"]
    getManualChunks_rejects_or_defaults
    [of "\<lparr>config_manualChunks = None\<rparr>"
        "\<lparr>treeshake = True, preserveModules = True, inlineDynamicImports = False,
          experimentalCacheExpiry = 10, manualChunks = None, options_cache = CacheUndefined\<rparr>"]
  by (simp add: getManualChunks_def)

section \<open>Manual chunk aliases: one alias per module\<close>

lemma addModuleToManualChunk_Inr:
  "addModuleToManualChunk alias module aliases = Inr aliases' \<Longrightarrow>
     aliases' = aliases(module \<mapsto> alias) \<and> (aliases module = None \<or> aliases module = Some alias)"
  by (auto simp: addModuleToManualChunk_def split: option.splits if_splits)

lemma addModuleToManualChunk_keeps:
  "addModuleToManualChunk alias module aliases = Inr aliases' \<Longrightarrow> aliases m = Some a
     \<Longrightarrow> aliases' m = Some a"
  by (auto dest!: addModuleToManualChunk_Inr)

lemma addEntriesToManualChunk_keeps:
  "addEntriesToManualChunk alias entries aliases = Inr aliases' \<Longrightarrow> aliases m = Some a
     \<Longrightarrow> aliases' m = Some a"
proof (induction entries arbitrary: aliases)
  case Nil
  then show ?case by simp
next
  case (Cons entry entries)
  then show ?case
    by (auto split: sum.splits dest: addModuleToManualChunk_keeps)
qed

lemma addEntriesToManualChunk_records:
  "addEntriesToManualChunk alias entries aliases = Inr aliases' \<Longrightarrow> entry \<in> set entries
     \<Longrightarrow> aliases' entry = Some alias"
proof (induction entries arbitrary: aliases)
  case Nil
  then show ?case by simp
next
  case (Cons e entries)
  then obtain mid where mid: "addModuleToManualChunk alias e aliases = Inr mid"
    and rest: "addEntriesToManualChunk alias entries mid = Inr aliases'"
    by (auto split: sum.splits)
  show ?case
  proof (cases "entry \<in> set entries")
    case True
    with Cons.IH rest show ?thesis by blast
  next
    case False
    with Cons.prems have "entry = e" by simp
    with mid have "mid entry = Some alias"
      by (auto dest!: addModuleToManualChunk_Inr)
    with rest show ?thesis by (rule addEntriesToManualChunk_keeps)
  qed
qed

lemma addManualChunks_keeps:
  "addManualChunks chunkEntries aliases = Inr aliases' \<Longrightarrow> aliases m = Some a
     \<Longrightarrow> aliases' m = Some a"
proof (induction chunkEntries arbitrary: aliases)
  case Nil
  then show ?case by simp
next
  case (Cons ce chunkEntries)
  then show ?case
    by (cases ce) (auto split: sum.splits dest: addEntriesToManualChunk_keeps)
qed

lemma addManualChunks_records:
  "addManualChunks chunkEntries aliases = Inr aliases' \<Longrightarrow> (alias, entries) \<in> set chunkEntries
     \<Longrightarrow> entry \<in> set entries \<Longrightarrow> aliases' entry = Some alias"
proof (induction chunkEntries arbitrary: aliases)
  case Nil
  then show ?case by simp
next
  case (Cons ce chunkEntries)
  obtain a es where ce: "ce = (a, es)" by (cases ce)
  with Cons.prems obtain mid where mid: "addEntriesToManualChunk a es aliases = Inr mid"
    and rest: "addManualChunks chunkEntries mid = Inr aliases'"
    by (auto split: sum.splits)
  show ?case
  proof (cases "(alias, entries) \<in> set chunkEntries")
    case True
    with Cons.IH rest Cons.prems(3) show ?thesis by blast
  next
    case False
    with Cons.prems ce have "a = alias" "es = entries" by auto
    with mid Cons.prems(3) have "mid entry = Some alias"
      by (auto dest: addEntriesToManualChunk_records)
    with rest show ?thesis by (rule addManualChunks_keeps)
  qed
qed

lemma addModuleToManualChunk_error_shape:
  "addModuleToManualChunk alias module aliases = Inl e \<Longrightarrow>
     e = ErrCannotAssignModuleToChunk module alias (the (aliases module))
       \<and> aliases module \<noteq> None \<and> alias \<noteq> the (aliases module)"
  by (auto simp: addModuleToManualChunk_def split: option.splits if_splits)

lemma addEntriesToManualChunk_error_shape:
  "addEntriesToManualChunk alias entries aliases = Inl e \<Longrightarrow>
     \<exists>m b. e = ErrCannotAssignModuleToChunk m alias b \<and> alias \<noteq> b"
proof (induction entries arbitrary: aliases)
  case Nil
  then show ?case by simp
next
  case (Cons entry entries)
  show ?case
  proof (cases "addModuleToManualChunk alias entry aliases")
    case (Inl e')
    with Cons.prems have "e' = e" by simp
    with Inl show ?thesis by (auto dest: addModuleToManualChunk_error_shape)
  next
    case (Inr mid)
    with Cons.prems have "addEntriesToManualChunk alias entries mid = Inl e" by simp
    then show ?thesis by (rule Cons.IH)
  qed
qed

lemma addManualChunks_error_shape:
  "addManualChunks chunkEntries aliases = Inl e \<Longrightarrow>
     \<exists>m a b. e = ErrCannotAssignModuleToChunk m a b \<and> a \<noteq> b"
proof (induction chunkEntries arbitrary: aliases)
  case Nil
  then show ?case by simp
next
  case (Cons ce chunkEntries)
  obtain a es where ce: "ce = (a, es)" by (cases ce)
  show ?case
  proof (cases "addEntriesToManualChunk a es aliases")
    case (Inl e')
    with Cons.prems ce have "e' = e" by simp
    with Inl show ?thesis by (blast dest: addEntriesToManualChunk_error_shape)
  next
    case (Inr mid)
    with Cons.prems ce have "addManualChunks chunkEntries mid = Inl e" by simp
    then show ?thesis by (rule Cons.IH)
  qed
qed

text \<open>
  C5. Assigning a module that already has a recorded alias to a different alias fails with
  the error built from the module id and both aliases; otherwise the alias is recorded.
  Hence a list of assignments that gives one module two different aliases (in
  \<^verbatim>\<open>addManualChunks\<close>) always ends in such an error, whose two aliases differ: a module
  never has more than one alias.
\<close>

theorem addModuleToManualChunk_one_alias:
  "(aliases module = Some existingAlias \<and> existingAlias \<noteq> newAlias \<longrightarrow>
      addModuleToManualChunk newAlias module aliases
        = Inl (ErrCannotAssignModuleToChunk module newAlias existingAlias))
   \<and> (aliases module = None \<or> aliases module = Some newAlias \<longrightarrow>
      addModuleToManualChunk newAlias module aliases = Inr (aliases(module \<mapsto> newAlias)))
   \<and> ((aliasA, entriesA) \<in> set chunkEntries \<and> (aliasB, entriesB) \<in> set chunkEntries \<and>
       shared \<in> set entriesA \<and> shared \<in> set entriesB \<and> aliasA \<noteq> aliasB \<longrightarrow>
      (\<exists>m a b. addManualChunks chunkEntries recorded = Inl (ErrCannotAssignModuleToChunk m a b)
          \<and> a \<noteq> b))"
proof (intro conjI impI)
  assume "aliases module = Some existingAlias \<and> existingAlias \<noteq> newAlias"
  then show "addModuleToManualChunk newAlias module aliases
        = Inl (ErrCannotAssignModuleToChunk module newAlias existingAlias)"
    by (simp add: addModuleToManualChunk_def)
next
  assume "aliases module = None \<or> aliases module = Some newAlias"
  then show "addModuleToManualChunk newAlias module aliases = Inr (aliases(module \<mapsto> newAlias))"
    by (auto simp: addModuleToManualChunk_def)
next
  assume twice: "(aliasA, entriesA) \<in> set chunkEntries \<and> (aliasB, entriesB) \<in> set chunkEntries \<and>
       shared \<in> set entriesA \<and> shared \<in> set entriesB \<and> aliasA \<noteq> aliasB"
  show "\<exists>m a b. addManualChunks chunkEntries recorded = Inl (ErrCannotAssignModuleToChunk m a b)
          \<and> a \<noteq> b"
  proof (cases "addManualChunks chunkEntries recorded")
    case (Inl e)
    then show ?thesis by (auto dest: addManualChunks_error_shape)
  next
    case (Inr aliases')
    with twice have "aliases' shared = Some aliasA" "aliases' shared = Some aliasB"
      by (blast dest: addManualChunks_records)+
    with twice show ?thesis by simp
  qed
qed

theorem addModuleToManualChunk_one_alias_witness:
  "addModuleToManualChunk ''b'' ''m.js'' [''m.js'' \<mapsto> ''a'']
     = Inl (ErrCannotAssignModuleToChunk ''m.js'' ''b'' ''a'')
   \<and> addModuleToManualChunk ''a'' ''m.js'' [''m.js'' \<mapsto> ''a''] = Inr [''m.js'' \<mapsto> ''a'']
   \<and> addModuleToManualChunk ''a'' ''m.js'' Map.empty = Inr [''m.js'' \<mapsto> ''a'']
   \<and> addManualChunks [(''a'', [''m.js'']), (''b'', [''n.js'', ''m.js''])] Map.empty
     = Inl (ErrCannotAssignModuleToChunk ''m.js'' ''b'' ''a'')"
  using addModuleToManualChunk_one_alias
    [where aliases = "[''m.js'' \<mapsto> ''a'']" and module = "''m.js''" and existingAlias = "''a''"
       and newAlias = "''b''" and chunkEntries = "[(''a'', [''m.js'']), (''b'', [''n.js'', ''m.js''])]"
       and aliasA = "''a''" and entriesA = "[''m.js'']" and aliasB = "''b''" and entriesB = "[''n.js'', ''m.js'']"
       and shared = "''m.js''" and recorded = "Map.empty"]
    addModuleToManualChunk_one_alias
    [where aliases = "[''m.js'' \<mapsto> ''a'']" and module = "''m.js''" and newAlias = "''a''"]
    addModuleToManualChunk_one_alias
    [where aliases = "Map.empty" and module = "''m.js''" and newAlias = "''a''"]
  by (simp add: addModuleToManualChunk_def)


section \<open>Module info: unknown and known ids\<close>

lemma collectImportedIds_resolved:
  "set srcs \<subseteq> dom rids \<Longrightarrow> \<exists>ids. collectImportedIds rids srcs acc = Inr ids"
  by (induction srcs arbitrary: acc) (auto split: option.splits)

lemma collectImportedIds_unresolved:
  "\<not> set srcs \<subseteq> dom rids \<Longrightarrow> collectImportedIds rids srcs acc = Inl JsTypeError"
  by (induction srcs arbitrary: acc) (auto split: option.splits)

text \<open>
  What \<^verbatim>\<open>getModuleInfo\<close> does on every table: for an id that is not in \<^verbatim>\<open>modulesById\<close>
  it throws the error "Unable to find module" with the id; for an id of an external
  module, and for an id of an internal module all of whose import sources have an entry in
  \<^verbatim>\<open>resolvedIds\<close>, it returns an info object carrying the module's id.
\<close>

lemma getModuleInfo_found_or_not:
  "(map_of modulesById moduleId = None \<longrightarrow>
      getModuleInfo flags modulesById moduleId
        = Inl (JsError (''Unable to find module '' @ moduleId)))
   \<and> (map_of modulesById moduleId = Some (ExternalModule e) \<longrightarrow>
      (\<exists>info table. getModuleInfo flags modulesById moduleId = Inr (info, table)
          \<and> info_id info = e_id e \<and> info_isExternal info))
   \<and> (map_of modulesById moduleId = Some (Module m) \<and> set (sources m) \<subseteq> dom (resolvedIds m) \<longrightarrow>
      (\<exists>info table. getModuleInfo flags modulesById moduleId = Inr (info, table)
          \<and> info_id info = m_id m \<and> \<not> info_isExternal info))"
proof (intro conjI impI)
  assume "map_of modulesById moduleId = None"
  then show "getModuleInfo flags modulesById moduleId
        = Inl (JsError (''Unable to find module '' @ moduleId))"
    by (simp add: getModuleInfo_def)
next
  assume "map_of modulesById moduleId = Some (ExternalModule e)"
  then show "\<exists>info table. getModuleInfo flags modulesById moduleId = Inr (info, table)
          \<and> info_id info = e_id e \<and> info_isExternal info"
    by (simp add: getModuleInfo_def Let_def)
next
  assume found: "map_of modulesById moduleId = Some (Module m) \<and> set (sources m) \<subseteq> dom (resolvedIds m)"
  then obtain ids where "collectImportedIds (resolvedIds m) (sources m) [] = Inr ids"
    using collectImportedIds_resolved by blast
  with found show "\<exists>info table. getModuleInfo flags modulesById moduleId = Inr (info, table)
          \<and> info_id info = m_id m \<and> \<not> info_isExternal info"
    by (simp add: getModuleInfo_def Let_def)
qed

lemma getModuleInfo_found_or_not_example:
  "getModuleInfo {} [] ''/a.js'' = Inl (JsError ''Unable to find module /a.js'')
   \<and> (\<exists>info table.
        getModuleInfo {} [(''x'', ExternalModule \<lparr>e_id = ''x'', e_dynamicImporters = [],
            e_importers = [''/a.js''], e_moduleSideEffects = True\<rparr>)] ''x'' = Inr (info, table)
        \<and> info_id info = ''x'' \<and> info_isExternal info)
   \<and> (\<exists>info table.
        getModuleInfo {}
          [(''/a.js'', Module ((emptyModule ''/a.js'')
              \<lparr>sources := [''./b''], resolvedIds := [''./b'' \<mapsto> ''/b.js'']\<rparr>))] ''/a.js''
          = Inr (info, table)
        \<and> info_id info = ''/a.js'' \<and> \<not> info_isExternal info)"
  using getModuleInfo_found_or_not
    [where modulesById = "[]" and moduleId = "''/a.js''" and flags = "{}"]
    getModuleInfo_found_or_not
    [where modulesById = "[(''x'', ExternalModule \<lparr>e_id = ''x'', e_dynamicImporters = [],
            e_importers = [''/a.js''], e_moduleSideEffects = True\<rparr>)]"
       and moduleId = "''x''" and flags = "{}"
       and e = "\<lparr>e_id = ''x'', e_dynamicImporters = [],
            e_importers = [''/a.js''], e_moduleSideEffects = True\<rparr>"]
    getModuleInfo_found_or_not
    [where modulesById = "[(''/a.js'', Module ((emptyModule ''/a.js'')
              \<lparr>sources := [''./b''], resolvedIds := [''./b'' \<mapsto> ''/b.js'']\<rparr>))]"
       and moduleId = "''/a.js''" and flags = "{}"
       and m = "(emptyModule ''/a.js'')
              \<lparr>sources := [''./b''], resolvedIds := [''./b'' \<mapsto> ''/b.js'']\<rparr>"]
  by (simp add: emptyModule_def)

text \<open>
  C9. An id that is in the table should get an info object, as an unknown id gets the
  module-not-found error. The code fails to do so for an internal module that is in the
  table while an import source of it has no entry in \<^verbatim>\<open>resolvedIds\<close> yet, which is the
  state of a module between its parsing and the resolution of its imports: the read of
  \<^verbatim>\<open>resolvedIds[source].id\<close> throws a TypeError. The loop over the dynamic imports of the
  same function does guard against a resolution that is not a module yet and skips it.
\<close>

theorem getModuleInfo_throws_on_unresolved_source:
  "map_of [(''/a.js'', Module ((emptyModule ''/a.js'')\<lparr>sources := [''./b'']\<rparr>))] ''/a.js'' \<noteq> None
   \<and> getModuleInfo {} [(''/a.js'', Module ((emptyModule ''/a.js'')\<lparr>sources := [''./b'']\<rparr>))] ''/a.js''
     = Inl JsTypeError
   \<and> map_sum id (info_dynamicallyImportedIds \<circ> fst)
       (getModuleInfo {}
          [(''/a.js'', Module ((emptyModule ''/a.js'')
              \<lparr>dynamicImports := [ResolutionString ''./b'', ResolutionNull]\<rparr>))] ''/a.js'')
     = Inr []
   \<and> getModuleInfo {} [] ''/a.js'' = Inl (JsError ''Unable to find module /a.js'')"
  by (simp add: getModuleInfo_def emptyModule_def)

section \<open>Plugin cache: access counters and eviction\<close>

lemma fold_keyed:
  assumes step: "\<And>k al k'. map_of (f k al) k' = (if k' = k then g (map_of al k) else map_of al k')"
  shows "distinct ks \<Longrightarrow>
     map_of (fold f ks al) k' = (if k' \<in> set ks then g (map_of al k') else map_of al k')"
proof (induction ks arbitrary: al)
  case Nil
  then show ?case by simp
next
  case (Cons k ks)
  then show ?case by (auto simp: step)
qed

lemma set_Object_keys: "set (Object_keys obj) = fst ` set obj"
  by (simp add: Object_keys_def)

lemma distinct_Object_keys: "distinct (Object_keys obj)"
  by (simp add: Object_keys_def)

lemma map_of_None_keys: "k \<notin> set (Object_keys obj) \<Longrightarrow> map_of obj k = None"
  by (simp add: set_Object_keys map_of_eq_None_iff)

lemma fold_Object_keys:
  assumes step: "\<And>k al k'. map_of (f k al) k' = (if k' = k then g (map_of al k) else map_of al k')"
    and none: "g None = None"
  shows "map_of (fold f (Object_keys al) al) k' = g (map_of al k')"
  using fold_keyed [of f g "Object_keys al" al k', OF step distinct_Object_keys]
  by (auto simp: none dest: map_of_None_keys)


lemma incrementEntry_step:
  "map_of (incrementEntry k c) k' =
     (if k' = k then map_option (\<lambda>(n, v). (n + 1, v)) (map_of c k) else map_of c k')"
  by (auto simp: incrementEntry_def update_conv' split: option.splits)

lemma incrementCache_lookup:
  "map_of (fold incrementEntry (Object_keys c) c) k = map_option (\<lambda>(n, v). (n + 1, v)) (map_of c k)"
  by (rule fold_Object_keys) (simp_all add: incrementEntry_step)

lemma incrementGroup_step:
  "map_of (incrementGroup name pc) name' =
     (if name' = name
      then map_option (\<lambda>c. fold incrementEntry (Object_keys c) c) (map_of pc name)
      else map_of pc name')"
  by (auto simp: incrementGroup_def update_conv' split: option.splits)

lemma incrementAccessCounters_group:
  "map_of (incrementAccessCounters pc) name =
     map_option (\<lambda>c. fold incrementEntry (Object_keys c) c) (map_of pc name)"
  unfolding incrementAccessCounters_def
  by (rule fold_Object_keys) (simp_all add: incrementGroup_step)

lemma incrementAccessCounters_entry:
  "cacheEntry (incrementAccessCounters pc) name key =
     map_option (\<lambda>(n, v). (n + 1, v)) (cacheEntry pc name key)"
  by (simp add: cacheEntry_def incrementAccessCounters_group incrementCache_lookup
      split: option.splits)

lemma evictEntry_fold:
  "distinct ks \<Longrightarrow> fold (evictEntry expiry) ks (c, b) = (c', b') \<Longrightarrow>
     (\<forall>k. map_of c' k = (if k \<in> set ks then keepFresh expiry (map_of c k) else map_of c k))
     \<and> (b' \<longleftrightarrow> b \<and> (\<forall>k\<in>set ks. keepFresh expiry (map_of c k) = None))"
proof (induction ks arbitrary: c b)
  case Nil
  then show ?case by simp
next
  case (Cons k ks)
  obtain c1 b1 where step: "evictEntry expiry k (c, b) = (c1, b1)"
    by (cases "evictEntry expiry k (c, b)")
  then have c1: "\<forall>k'. map_of c1 k' = (if k' = k then keepFresh expiry (map_of c k) else map_of c k')"
    and b1: "b1 \<longleftrightarrow> b \<and> keepFresh expiry (map_of c k) = None"
    by (auto simp: evictEntry_def delete_conv' split: option.splits if_splits)
  from Cons.prems step have rest: "fold (evictEntry expiry) ks (c1, b1) = (c', b')"
    and dist: "distinct ks" and notin: "k \<notin> set ks"
    by simp_all
  from Cons.IH [OF dist rest] c1 b1 notin show ?case
    by auto
qed

lemma evictCache_lookup:
  assumes "fold (evictEntry expiry) (Object_keys c) (c, True) = (c', b')"
  shows "map_of c' k = keepFresh expiry (map_of c k)"
    and "b' \<longleftrightarrow> (\<forall>k. keepFresh expiry (map_of c k) = None)"
proof -
  note facts = evictEntry_fold [OF distinct_Object_keys assms]
  have none: "keepFresh expiry (map_of c k) = None" if "k \<notin> set (Object_keys c)" for k
    using that by (simp add: map_of_None_keys)
  from facts none show "map_of c' k = keepFresh expiry (map_of c k)"
    by (cases "k \<in> set (Object_keys c)") (simp_all add: map_of_None_keys)
  from facts none show "b' \<longleftrightarrow> (\<forall>k. keepFresh expiry (map_of c k) = None)"
    by auto
qed

lemma evictGroup_step:
  "map_of (evictGroup expiry name pc) name' =
     (if name' = name then evictedGroup expiry (map_of pc name) else map_of pc name')"
  by (auto simp: evictGroup_def update_conv' delete_conv' split: option.splits prod.splits)

lemma evictPluginCache_group:
  "map_of (evictPluginCache expiry pc) name = evictedGroup expiry (map_of pc name)"
  unfolding evictPluginCache_def
  by (rule fold_Object_keys) (simp_all add: evictGroup_step)

lemma evictPluginCache_entry:
  "cacheEntry (evictPluginCache expiry pc) name key = keepFresh expiry (cacheEntry pc name key)"
proof (cases "map_of pc name")
  case None
  then show ?thesis by (simp add: cacheEntry_def evictPluginCache_group)
next
  case (Some c)
  obtain c' b' where f: "fold (evictEntry expiry) (Object_keys c) (c, True) = (c', b')"
    by (cases "fold (evictEntry expiry) (Object_keys c) (c, True)")
  from evictCache_lookup [OF f] Some f show ?thesis
    by (simp add: cacheEntry_def evictPluginCache_group)
qed

lemma evictPluginCache_dropped:
  "map_of (evictPluginCache expiry pc) name = None \<longleftrightarrow>
     map_of pc name = None \<or> (\<forall>key. keepFresh expiry (cacheEntry pc name key) = None)"
proof (cases "map_of pc name")
  case None
  then show ?thesis by (simp add: evictPluginCache_group)
next
  case (Some c)
  obtain c' b' where f: "fold (evictEntry expiry) (Object_keys c) (c, True) = (c', b')"
    by (cases "fold (evictEntry expiry) (Object_keys c) (c, True)")
  from evictCache_lookup(2) [OF f] Some f show ?thesis
    by (simp add: cacheEntry_def evictPluginCache_group)
qed


text \<open>
  C8. When the cache is not disabled, the constructor leaves every supplied cache entry in
  place with its access counter increased by one. \<^verbatim>\<open>getCache\<close> keeps exactly the entries
  whose counter is below \<^verbatim>\<open>experimentalCacheExpiry\<close>, unchanged, and removes a plugin's
  group exactly when none of its entries is kept.
\<close>

theorem pluginCache_access_count_eviction:
  "(options_cache options \<noteq> CacheFalse \<longrightarrow>
      (\<exists>counted. Graph_constructor_pluginCache options = Some counted \<and>
         (\<forall>name key. cacheEntry counted name key
            = map_option (\<lambda>(n, v). (n + 1, v)) (cacheEntry (suppliedPluginCache options) name key))))
   \<and> (\<exists>kept. snd (getCache toJSON options mods (Some pluginCache)) = Some kept \<and>
         (\<forall>name key. cacheEntry kept name key
            = (case cacheEntry pluginCache name key of
                 None \<Rightarrow> None
               | Some (n, v) \<Rightarrow> if n \<ge> experimentalCacheExpiry options then None else Some (n, v))) \<and>
         (\<forall>name. map_of kept name = None \<longleftrightarrow>
            map_of pluginCache name = None \<or>
            (\<forall>key n v. cacheEntry pluginCache name key = Some (n, v)
                \<longrightarrow> n \<ge> experimentalCacheExpiry options)))"
proof (intro conjI impI)
  assume "options_cache options \<noteq> CacheFalse"
  then show "\<exists>counted. Graph_constructor_pluginCache options = Some counted \<and>
         (\<forall>name key. cacheEntry counted name key
            = map_option (\<lambda>(n, v). (n + 1, v)) (cacheEntry (suppliedPluginCache options) name key))"
    by (simp add: Graph_constructor_pluginCache_def incrementAccessCounters_entry)
next
  let ?E = "experimentalCacheExpiry options"
  have fresh: "keepFresh ?E e = (case e of None \<Rightarrow> None
               | Some (n, v) \<Rightarrow> if n \<ge> ?E then None else Some (n, v))" for e
    by (cases e) auto
  have gone: "keepFresh ?E e = None \<longleftrightarrow> (\<forall>n v. e = Some (n, v) \<longrightarrow> n \<ge> ?E)" for e
    by (cases e) (auto split: if_splits)
  have "snd (getCache toJSON options mods (Some pluginCache)) = Some (evictPluginCache ?E pluginCache)"
    by (simp add: getCache_def)
  moreover have "\<forall>name key. cacheEntry (evictPluginCache ?E pluginCache) name key
            = (case cacheEntry pluginCache name key of
                 None \<Rightarrow> None
               | Some (n, v) \<Rightarrow> if n \<ge> ?E then None else Some (n, v))"
    by (simp add: evictPluginCache_entry fresh)
  moreover have "\<forall>name. map_of (evictPluginCache ?E pluginCache) name = None \<longleftrightarrow>
            map_of pluginCache name = None \<or>
            (\<forall>key n v. cacheEntry pluginCache name key = Some (n, v) \<longrightarrow> n \<ge> ?E)"
    by (simp add: evictPluginCache_dropped gone)
  ultimately show "\<exists>kept. snd (getCache toJSON options mods (Some pluginCache)) = Some kept \<and>
         (\<forall>name key. cacheEntry kept name key
            = (case cacheEntry pluginCache name key of
                 None \<Rightarrow> None
               | Some (n, v) \<Rightarrow> if n \<ge> ?E then None else Some (n, v))) \<and>
         (\<forall>name. map_of kept name = None \<longleftrightarrow>
            map_of pluginCache name = None \<or>
            (\<forall>key n v. cacheEntry pluginCache name key = Some (n, v) \<longrightarrow> n \<ge> ?E))"
    by blast
qed

theorem pluginCache_access_count_eviction_witness:
  "Graph_constructor_pluginCache exampleOptions
     = Some [(''p'', [(''k'', (10, ''v'')), (''l'', (4, ''w''))]), (''q'', [(''k'', (10, ''v''))])]
   \<and> snd (getCache m_id exampleOptions []
        (Some [(''p'', [(''k'', (10, ''v'')), (''l'', (4, ''w''))]), (''q'', [(''k'', (10, ''v''))])]))
     = Some [(''p'', [(''l'', (4, ''w''))])]"
  using pluginCache_access_count_eviction
    [where options = exampleOptions and toJSON = m_id and mods = "[]"
       and pluginCache = "[(''p'', [(''k'', (10, ''v'')), (''l'', (4, ''w''))]), (''q'', [(''k'', (10, ''v''))])]"]
  by (simp add: exampleOptions_def Graph_constructor_pluginCache_def suppliedPluginCache_def
      incrementAccessCounters_def incrementGroup_def incrementEntry_def Object_keys_def
      getCache_def evictPluginCache_def evictGroup_def evictEntry_def)

section \<open>Inclusion: the tree-shaking passes end\<close>

lemma includePass_monotonic:
  assumes M: "monotonicInclude U ms0 M"
  shows "modules g = ms0 \<Longrightarrow> flagsOn g \<subseteq> U \<Longrightarrow> set ms \<subseteq> set ms0 \<Longrightarrow>
     modules (includePass M ms g) = ms0 \<and>
     flagsOn g \<subseteq> flagsOn (includePass M ms g) \<and>
     flagsOn (includePass M ms g) \<subseteq> U \<and>
     (needsTreeshakingPass (includePass M ms g) \<and> \<not> needsTreeshakingPass g
        \<longrightarrow> flagsOn g \<subset> flagsOn (includePass M ms g))"
proof (induction ms arbitrary: g)
  case Nil
  then show ?case by simp
next
  case (Cons module rest)
  let ?g1 = "if IsExecuted (m_id module) \<in> flagsOn g then m_include M module g else g"
  from Cons.prems have mem: "module \<in> set ms0" by simp
  from M Cons.prems(1,2) mem
  have inc: "modules (m_include M module g) = ms0 \<and>
           flagsOn g \<subseteq> flagsOn (m_include M module g) \<and>
           flagsOn (m_include M module g) \<subseteq> U \<and>
           (needsTreeshakingPass (m_include M module g) \<and> \<not> needsTreeshakingPass g
              \<longrightarrow> flagsOn (m_include M module g) \<noteq> flagsOn g)"
    unfolding monotonicInclude_def by blast
  have step: "modules ?g1 = ms0" "flagsOn g \<subseteq> flagsOn ?g1" "flagsOn ?g1 \<subseteq> U"
    "needsTreeshakingPass ?g1 \<and> \<not> needsTreeshakingPass g \<longrightarrow> flagsOn g \<subset> flagsOn ?g1"
  proof -
    show "modules ?g1 = ms0" using inc Cons.prems(1) by simp
    show "flagsOn g \<subseteq> flagsOn ?g1" using inc by simp
    show "flagsOn ?g1 \<subseteq> U" using inc Cons.prems(2) by simp
    show "needsTreeshakingPass ?g1 \<and> \<not> needsTreeshakingPass g \<longrightarrow> flagsOn g \<subset> flagsOn ?g1"
      using inc by (cases "IsExecuted (m_id module) \<in> flagsOn g") auto
  qed
  from Cons.prems have "set rest \<subseteq> set ms0" by simp
  from Cons.IH [OF step(1) step(3) this]
  have ih: "modules (includePass M rest ?g1) = ms0"
    "flagsOn ?g1 \<subseteq> flagsOn (includePass M rest ?g1)"
    "flagsOn (includePass M rest ?g1) \<subseteq> U"
    "needsTreeshakingPass (includePass M rest ?g1) \<and> \<not> needsTreeshakingPass ?g1
        \<longrightarrow> flagsOn ?g1 \<subset> flagsOn (includePass M rest ?g1)"
    by simp_all
  have unfold: "includePass M (module # rest) g = includePass M rest ?g1" by simp
  from step ih show ?case
    unfolding unfold by blast
qed

lemma treeshakingLoop_returns:
  assumes fin: "finite U" and M: "monotonicInclude U ms M"
  shows "modules g = ms \<Longrightarrow> flagsOn g \<subseteq> U \<Longrightarrow>
    \<exists>n g'. treeshakingLoop M treeshakingPass g = Some (n, g') \<and>
       \<not> needsTreeshakingPass g' \<and> flagsOn g \<subseteq> flagsOn g' \<and> flagsOn g' \<subseteq> U \<and>
       treeshakingPass < n \<and> n - treeshakingPass \<le> card (U - flagsOn g) + 1"
proof (induction "card (U - flagsOn g)" arbitrary: g treeshakingPass rule: less_induct)
  case less
  let ?g1 = "g\<lparr>needsTreeshakingPass := False\<rparr>"
  let ?g2 = "includePass M (modules ?g1) ?g1"
  from less.prems have g1: "modules ?g1 = ms" "flagsOn ?g1 \<subseteq> U" by simp_all
  from includePass_monotonic [OF M g1(1) g1(2), of ms]
  have g2: "modules ?g2 = ms" "flagsOn g \<subseteq> flagsOn ?g2" "flagsOn ?g2 \<subseteq> U"
    "needsTreeshakingPass ?g2 \<longrightarrow> flagsOn g \<subset> flagsOn ?g2"
    using less.prems(1) by simp_all
  show ?case
  proof (cases "needsTreeshakingPass ?g2")
    case False
    then have "treeshakingLoop M treeshakingPass g = Some (treeshakingPass + 1, ?g2)"
      by (subst treeshakingLoop.simps) (simp add: Let_def)
    with False g2 show ?thesis by simp
  next
    case True
    with g2 have strict: "flagsOn g \<subset> flagsOn ?g2" by simp
    with g2(3) have "U - flagsOn ?g2 \<subset> U - flagsOn g" by blast
    with fin have smaller: "card (U - flagsOn ?g2) < card (U - flagsOn g)"
      by (simp add: psubset_card_mono)
    from less.hyps [OF smaller g2(1) g2(3), of "treeshakingPass + 1"]
    obtain n g' where r: "treeshakingLoop M (treeshakingPass + 1) ?g2 = Some (n, g')"
      "\<not> needsTreeshakingPass g'" "flagsOn ?g2 \<subseteq> flagsOn g'" "flagsOn g' \<subseteq> U"
      "treeshakingPass + 1 < n" "n - (treeshakingPass + 1) \<le> card (U - flagsOn ?g2) + 1"
      by blast
    from True r(1) have "treeshakingLoop M treeshakingPass g = Some (n, g')"
      by (subst treeshakingLoop.simps) (simp add: Let_def)
    moreover from r(5,6) smaller
    have "treeshakingPass < n" "n - treeshakingPass \<le> card (U - flagsOn g) + 1"
      by arith+
    ultimately show ?thesis using r(2,3,4) g2(2) by blast
  qed
qed

lemma includePass_fold:
  "includePass M ms g =
     fold (\<lambda>module g. if IsExecuted (m_id module) \<in> flagsOn g then m_include M module g else g) ms g"
  by (induction ms arbitrary: g) simp_all

lemma example_monotonic:
  "monotonicInclude exampleFlags [exampleB, exampleA, exampleC] exampleMethods"
  unfolding monotonicInclude_def
  by (auto simp: exampleMethods_def exampleFlags_def exampleA_def exampleB_def exampleC_def
      emptyModule_def List.map_filter_simps)

text \<open>
  C1. Each pass of the tree-shaking loop first resets \<^verbatim>\<open>needsTreeshakingPass\<close> (so the
  loop does not depend on its value on entry), then runs the include step of every module
  whose \<^verbatim>\<open>isExecuted\<close> is on when its turn comes, and the loop repeats exactly while the
  flag is set at the end of the pass. If the include steps are monotonic over a finite set
  \<open>U\<close> of flags and set the flag only when they switched a flag on, the loop returns, with
  the flag off, with no flag switched off, after at most one pass more than there were
  flags of \<open>U\<close> off at the start.
\<close>

theorem treeshakingLoop_passes_and_termination:
  "treeshakingLoop M treeshakingPass (g\<lparr>needsTreeshakingPass := b\<rparr>)
     = treeshakingLoop M treeshakingPass g
   \<and> treeshakingLoop M treeshakingPass g
     = (let g2 = includePass M (modules g) (g\<lparr>needsTreeshakingPass := False\<rparr>)
        in if needsTreeshakingPass g2 then treeshakingLoop M (treeshakingPass + 1) g2
           else Some (treeshakingPass + 1, g2))
   \<and> includePass M ms g
     = fold (\<lambda>module g. if IsExecuted (m_id module) \<in> flagsOn g then m_include M module g else g)
         ms g
   \<and> (finite U \<and> monotonicInclude U (modules g) M \<and> flagsOn g \<subseteq> U \<longrightarrow>
        (\<exists>n g'. treeshakingLoop M treeshakingPass g = Some (n, g') \<and>
           \<not> needsTreeshakingPass g' \<and> flagsOn g \<subseteq> flagsOn g' \<and> flagsOn g' \<subseteq> U \<and>
           treeshakingPass < n \<and> n - treeshakingPass \<le> card (U - flagsOn g) + 1))"
proof (intro conjI impI)
  show "treeshakingLoop M treeshakingPass (g\<lparr>needsTreeshakingPass := b\<rparr>)
     = treeshakingLoop M treeshakingPass g"
    by (subst (1 2) treeshakingLoop.simps) simp
  show "treeshakingLoop M treeshakingPass g
     = (let g2 = includePass M (modules g) (g\<lparr>needsTreeshakingPass := False\<rparr>)
        in if needsTreeshakingPass g2 then treeshakingLoop M (treeshakingPass + 1) g2
           else Some (treeshakingPass + 1, g2))"
    by (subst treeshakingLoop.simps) (simp add: Let_def)
  show "includePass M ms g
     = fold (\<lambda>module g. if IsExecuted (m_id module) \<in> flagsOn g then m_include M module g else g)
         ms g"
    by (rule includePass_fold)
next
  assume "finite U \<and> monotonicInclude U (modules g) M \<and> flagsOn g \<subseteq> U"
  then show "\<exists>n g'. treeshakingLoop M treeshakingPass g = Some (n, g') \<and>
           \<not> needsTreeshakingPass g' \<and> flagsOn g \<subseteq> flagsOn g' \<and> flagsOn g' \<subseteq> U \<and>
           treeshakingPass < n \<and> n - treeshakingPass \<le> card (U - flagsOn g) + 1"
    using treeshakingLoop_returns [of U "modules g" M g treeshakingPass] by blast
qed

lemma exampleSeeded_flags:
  "flagsOn exampleSeeded = {IsEntryPoint ''/a.js'', IsExecuted ''/a.js'', IsExecuted ''/c.js'',
      ExportIncluded ''/a.js'' ''main''}"
  by code_simp

lemma exampleSeeded_modules: "modules exampleSeeded = [exampleB, exampleA, exampleC]"
  by (simp add: exampleSeeded_def exampleMethods_def exampleGraph_def exampleA_def
      exampleC_def emptyModule_def)

theorem treeshakingLoop_passes_and_termination_witness:
  "\<exists>n g'. treeshakingLoop exampleMethods 1 exampleSeeded = Some (n, g') \<and>
     \<not> needsTreeshakingPass g' \<and> flagsOn exampleSeeded \<subseteq> flagsOn g' \<and>
     flagsOn g' \<subseteq> exampleFlags \<and> 1 < n \<and> n - 1 \<le> 4 + 1"
proof -
  have fin: "finite exampleFlags" by (simp add: exampleFlags_def)
  have sub: "flagsOn exampleSeeded \<subseteq> exampleFlags"
    unfolding exampleSeeded_flags by (simp add: exampleFlags_def)
  have card: "card (exampleFlags - flagsOn exampleSeeded) = 4"
    unfolding exampleSeeded_flags by (simp add: exampleFlags_def)
  from example_monotonic
  have "monotonicInclude exampleFlags (modules exampleSeeded) exampleMethods"
    by (simp add: exampleSeeded_modules)
  with treeshakingLoop_passes_and_termination
    [where U = exampleFlags and M = exampleMethods and g = exampleSeeded and treeshakingPass = 1]
    fin sub
  have "\<exists>n g'. treeshakingLoop exampleMethods 1 exampleSeeded = Some (n, g') \<and>
           \<not> needsTreeshakingPass g' \<and> flagsOn exampleSeeded \<subseteq> flagsOn g' \<and>
           flagsOn g' \<subseteq> exampleFlags \<and>
           1 < n \<and> n - 1 \<le> card (exampleFlags - flagsOn exampleSeeded) + 1"
    by blast
  then show ?thesis
    unfolding card by simp
qed

text \<open>
  The condition on the reports cannot be dropped: with an include step that sets
  \<^verbatim>\<open>needsTreeshakingPass\<close> without including anything, the loop does not return as soon
  as one module is executed.
\<close>

lemma restless_pass:
  "includePass restlessMethods ms g =
     g\<lparr>needsTreeshakingPass :=
         needsTreeshakingPass g \<or> (\<exists>module \<in> set ms. IsExecuted (m_id module) \<in> flagsOn g)\<rparr>"
  by (induction ms arbitrary: g) (auto simp: restlessMethods_def)

lemma restless_loop_no_result:
  assumes "treeshakingLoop M treeshakingPass g = Some r"
  shows "\<not> (M = restlessMethods \<and> (\<exists>module \<in> set (modules g). IsExecuted (m_id module) \<in> flagsOn g))"
proof (rule treeshakingLoop.raw_induct
    [where P = "\<lambda>M treeshakingPass g r. \<not> (M = restlessMethods \<and>
        (\<exists>module \<in> set (modules g). IsExecuted (m_id module) \<in> flagsOn g))",
     OF _ assms])
  fix loop :: "inclusionMethods \<Rightarrow> nat \<Rightarrow> graph \<Rightarrow> (nat \<times> graph) option"
    and M treeshakingPass g r
  assume ih: "\<And>M treeshakingPass g r. loop M treeshakingPass g = Some r \<Longrightarrow>
      \<not> (M = restlessMethods \<and>
        (\<exists>module \<in> set (modules g). IsExecuted (m_id module) \<in> flagsOn g))"
    and body: "(let g1 = g\<lparr>needsTreeshakingPass := False\<rparr>;
          g2 = includePass M (modules g1) g1
      in if needsTreeshakingPass g2
         then loop M (treeshakingPass + 1) g2
         else Some (treeshakingPass + 1, g2)) = Some r"
  show "\<not> (M = restlessMethods \<and>
        (\<exists>module \<in> set (modules g). IsExecuted (m_id module) \<in> flagsOn g))"
  proof
    assume c: "M = restlessMethods \<and>
        (\<exists>module \<in> set (modules g). IsExecuted (m_id module) \<in> flagsOn g)"
    let ?g2 = "g\<lparr>needsTreeshakingPass := True\<rparr>"
    from c have g2: "includePass M (modules g) (g\<lparr>needsTreeshakingPass := False\<rparr>) = ?g2"
      by (simp add: restless_pass)
    with body have step: "loop M (treeshakingPass + 1) ?g2 = Some r"
      by (simp add: Let_def)
    from ih [OF step] c show False by simp
  qed
qed

lemma restless_loop_diverges:
  "treeshakingLoop restlessMethods 1 exampleSeeded = None"
proof (cases "treeshakingLoop restlessMethods 1 exampleSeeded")
  case None
  then show ?thesis .
next
  case (Some r)
  from restless_loop_no_result [OF Some]
  have "\<not> (\<exists>module \<in> set (modules exampleSeeded). IsExecuted (m_id module) \<in> flagsOn exampleSeeded)"
    by simp
  then show ?thesis
    by (simp add: exampleSeeded_modules exampleSeeded_flags exampleA_def emptyModule_def)
qed

section \<open>Inclusion: the seed\<close>

lemma impureClosure_extensive: "set reached \<subseteq> set (impureClosure ms reached)"
proof (induction ms reached rule: impureClosure.induct)
  case (1 ms reached)
  show ?case
  proof (cases "impureFrontier ms reached = []")
    case True
    then show ?thesis by simp
  next
    case False
    with 1 have "set (reached @ impureFrontier ms reached)
        \<subseteq> set (impureClosure ms (reached @ impureFrontier ms reached))"
      by blast
    with False show ?thesis
      by (subst impureClosure.simps) auto
  qed
qed

lemma impureFrontier_reached:
  assumes "\<forall>i \<in> set reached. impurelyReached ms module i"
    and "d \<in> set (impureFrontier ms reached)"
  shows "impurelyReached ms module d"
proof -
  from assms(2) obtain i where "i \<in> set reached" "d \<in> set (dependenciesOf ms i)"
    "hasSideEffects ms d"
    by (auto simp: impureFrontier_def)
  with assms(1) show ?thesis
    by (blast intro: impurelyReached.further)
qed

lemma impureClosure_sound:
  "\<forall>i \<in> set reached. impurelyReached ms module i \<Longrightarrow>
     \<forall>d \<in> set (impureClosure ms reached). impurelyReached ms module d"
proof (induction ms reached rule: impureClosure.induct)
  case (1 ms reached)
  show ?case
  proof (cases "impureFrontier ms reached = []")
    case True
    with "1.prems" show ?thesis by simp
  next
    case False
    from "1.prems" have "\<forall>i \<in> set (reached @ impureFrontier ms reached). impurelyReached ms module i"
      by (auto intro: impureFrontier_reached)
    with 1 False have "\<forall>d \<in> set (impureClosure ms (reached @ impureFrontier ms reached)).
        impurelyReached ms module d"
      by blast
    with False show ?thesis
      by (subst impureClosure.simps) simp
  qed
qed

lemma impureClosure_closed:
  "i \<in> set (impureClosure ms reached) \<Longrightarrow> d \<in> set (dependenciesOf ms i) \<Longrightarrow>
     hasSideEffects ms d \<Longrightarrow> d \<in> set (impureClosure ms reached)"
proof (induction ms reached rule: impureClosure.induct)
  case (1 ms reached)
  show ?case
  proof (cases "impureFrontier ms reached = []")
    case True
    with "1.prems"(1) have i: "i \<in> set reached" by simp
    have "d \<in> set reached"
    proof (rule ccontr)
      assume "d \<notin> set reached"
      with i "1.prems"(2,3) have "d \<in> set (impureFrontier ms reached)"
        by (auto simp: impureFrontier_def)
      with True show False by simp
    qed
    with True show ?thesis by simp
  next
    case False
    from False have unfold: "impureClosure ms reached
        = impureClosure ms (reached @ impureFrontier ms reached)"
      by (subst impureClosure.simps) simp
    from "1.prems"(1) have "i \<in> set (impureClosure ms (reached @ impureFrontier ms reached))"
      unfolding unfold .
    from "1.IH" [OF False this "1.prems"(2,3)] show ?thesis
      unfolding unfold .
  qed
qed

lemma impureDependencies_iff:
  "d \<in> set (impureDependencies ms module) \<longleftrightarrow> impurelyReached ms module d"
proof
  assume "d \<in> set (impureDependencies ms module)"
  moreover have "\<forall>i \<in> set (filter (hasSideEffects ms) (remdups (staticDependencies module))).
      impurelyReached ms module i"
    by (auto intro: impurelyReached.direct)
  ultimately show "impurelyReached ms module d"
    unfolding impureDependencies_def by (blast dest: impureClosure_sound)
next
  assume "impurelyReached ms module d"
  then show "d \<in> set (impureDependencies ms module)"
  proof (induction rule: impurelyReached.induct)
    case (direct d)
    then have "d \<in> set (filter (hasSideEffects ms) (remdups (staticDependencies module)))"
      by simp
    then show ?case
      unfolding impureDependencies_def using impureClosure_extensive by blast
  next
    case (further i d)
    then show ?case
      unfolding impureDependencies_def by (blast intro: impureClosure_closed)
  qed
qed

lemma includeEntryModules_append:
  "includeEntryModules M (xs @ ys) g = includeEntryModules M ys (includeEntryModules M xs g)"
  by (induction xs arbitrary: g) simp_all

lemma includeEntryModules_keeps_flags:
  "seedContract M \<Longrightarrow> flagsOn g \<subseteq> flagsOn (includeEntryModules M ms g)"
proof (induction ms arbitrary: g)
  case Nil
  then show ?case by simp
next
  case (Cons module rest)
  let ?g1 = "if preserveSignature module \<noteq> PreserveFalse
        then includeAllExports M module g
        else markModuleAndImpureDependenciesAsExecuted M module g"
  from Cons.prems have "flagsOn g \<subseteq> flagsOn ?g1"
    unfolding seedContract_def by auto
  moreover from Cons have "flagsOn ?g1 \<subseteq> flagsOn (includeEntryModules M rest ?g1)"
    by blast
  ultimately show ?case by auto
qed

lemma includeEntryModules_split:
  "includeEntryModules M (before @ module # after) g =
     includeEntryModules M after
       (if preserveSignature module \<noteq> PreserveFalse
        then includeAllExports M module (includeEntryModules M before g)
        else markModuleAndImpureDependenciesAsExecuted M module (includeEntryModules M before g))"
  by (simp add: includeEntryModules_append)

lemma mark_new_flags:
  assumes "seedContract M"
    and "f \<in> flagsOn (markModuleAndImpureDependenciesAsExecuted M module g) - flagsOn g"
  shows "f = IsExecuted (m_id module) \<or> (\<exists>d. impurelyReached (modules g) module d \<and> f = IsExecuted d)"
proof -
  from assms have "f \<in> IsExecuted ` set (m_id module # impureDependencies (modules g) module)"
    unfolding seedContract_def by auto
  then show ?thesis
    by (auto simp: impureDependencies_iff)
qed

lemma mark_reached:
  assumes "seedContract M" and "impurelyReached (modules g) module d"
  shows "IsExecuted d \<in> flagsOn (markModuleAndImpureDependenciesAsExecuted M module g)"
    and "IsExecuted (m_id module) \<in> flagsOn (markModuleAndImpureDependenciesAsExecuted M module g)"
proof -
  from assms(2) have "d \<in> set (impureDependencies (modules g) module)"
    by (simp add: impureDependencies_iff)
  with assms(1) show "IsExecuted d \<in> flagsOn (markModuleAndImpureDependenciesAsExecuted M module g)"
    unfolding seedContract_def by auto
  from assms(1) show "IsExecuted (m_id module) \<in> flagsOn (markModuleAndImpureDependenciesAsExecuted M module g)"
    unfolding seedContract_def by auto
qed

lemma mark_self:
  assumes "seedContract M"
  shows "IsExecuted (m_id module) \<in> flagsOn (markModuleAndImpureDependenciesAsExecuted M module g)"
  using assms unfolding seedContract_def by auto

lemma includeEntryModules_marks_only:
  "seedContract M \<Longrightarrow> \<forall>module \<in> set ms. preserveSignature module = PreserveFalse \<Longrightarrow>
     f \<in> flagsOn (includeEntryModules M ms g) - flagsOn g \<Longrightarrow> \<exists>d. f = IsExecuted d"
proof (induction ms arbitrary: g)
  case Nil
  then show ?case by simp
next
  case (Cons module rest)
  let ?g1 = "markModuleAndImpureDependenciesAsExecuted M module g"
  from Cons.prems(2) have run: "includeEntryModules M (module # rest) g = includeEntryModules M rest ?g1"
    by simp
  show ?case
  proof (cases "f \<in> flagsOn ?g1")
    case True
    with Cons.prems(3) have "f \<in> flagsOn ?g1 - flagsOn g" by simp
    with Cons.prems(1) show ?thesis
      by (blast dest: mark_new_flags)
  next
    case False
    with Cons.prems(3) have "f \<in> flagsOn (includeEntryModules M rest ?g1) - flagsOn ?g1"
      unfolding run by simp
    moreover from Cons.prems(2) have "\<forall>module \<in> set rest. preserveSignature module = PreserveFalse"
      by simp
    ultimately show ?thesis
      using Cons.IH Cons.prems(1) by blast
  qed
qed

lemma example_seedContract: "seedContract exampleMethods"
  unfolding seedContract_def by (auto simp: exampleMethods_def)

text \<open>
  C3. The seed loop of \<^verbatim>\<open>includeStatements\<close> runs over the entry modules and then the
  implicit entry modules. Under the contract of the two helpers: after the loop, every
  export of every such module whose \<^verbatim>\<open>preserveSignature\<close> is not \<^verbatim>\<open>false\<close> is included,
  and every such module whose \<^verbatim>\<open>preserveSignature\<close> is \<^verbatim>\<open>false\<close> is executed. For a module
  of the second kind the loop's step is
  \<^verbatim>\<open>markModuleAndImpureDependenciesAsExecuted\<close>, not \<^verbatim>\<open>includeAllExports\<close>: after the loop
  every module reached from it through impure static dependencies is executed, and the
  only flags that its step switches on are the execution flags of the module itself and
  of those modules, so the step includes no export. If no seed preserves its signature,
  the whole loop switches on execution flags only.
\<close>

theorem includeEntryModules_seed:
  assumes contract: "seedContract M"
    and seeds: "seeds = entryModules g @ implicitEntryModules g"
  shows "(\<forall>module \<in> set seeds.
      (preserveSignature module \<noteq> PreserveFalse \<longrightarrow>
         (\<forall>x \<in> set (exportNames module).
            ExportIncluded (m_id module) x \<in> flagsOn (includeEntryModules M seeds g))) \<and>
      (preserveSignature module = PreserveFalse \<longrightarrow>
         IsExecuted (m_id module) \<in> flagsOn (includeEntryModules M seeds g)))
    \<and> (\<forall>before module after.
         seeds = before @ module # after \<and> preserveSignature module = PreserveFalse \<longrightarrow>
         includeEntryModules M seeds g
           = includeEntryModules M after
               (markModuleAndImpureDependenciesAsExecuted M module (includeEntryModules M before g))
         \<and> (\<forall>d. impurelyReached (modules (includeEntryModules M before g)) module d \<longrightarrow>
               IsExecuted d \<in> flagsOn (includeEntryModules M seeds g))
         \<and> (\<forall>f \<in> flagsOn (markModuleAndImpureDependenciesAsExecuted M module
                            (includeEntryModules M before g))
                   - flagsOn (includeEntryModules M before g).
               f = IsExecuted (m_id module) \<or>
               (\<exists>d. impurelyReached (modules (includeEntryModules M before g)) module d \<and>
                    f = IsExecuted d)))
    \<and> ((\<forall>module \<in> set seeds. preserveSignature module = PreserveFalse) \<longrightarrow>
         (\<forall>f \<in> flagsOn (includeEntryModules M seeds g) - flagsOn g. \<exists>d. f = IsExecuted d))"
proof (intro conjI ballI allI impI)
  fix module x
  assume mem: "module \<in> set seeds" and keep: "preserveSignature module \<noteq> PreserveFalse"
    and x: "x \<in> set (exportNames module)"
  from mem obtain before after where split: "seeds = before @ module # after"
    by (auto simp: in_set_conv_decomp)
  let ?g0 = "includeEntryModules M before g"
  from contract x have "ExportIncluded (m_id module) x \<in> flagsOn (includeAllExports M module ?g0)"
    unfolding seedContract_def by blast
  moreover from contract
  have "flagsOn (includeAllExports M module ?g0)
      \<subseteq> flagsOn (includeEntryModules M after (includeAllExports M module ?g0))"
    by (rule includeEntryModules_keeps_flags)
  ultimately show "ExportIncluded (m_id module) x \<in> flagsOn (includeEntryModules M seeds g)"
    using keep by (auto simp: split includeEntryModules_split)
next
  fix module
  assume mem: "module \<in> set seeds" and drop: "preserveSignature module = PreserveFalse"
  from mem obtain before after where split: "seeds = before @ module # after"
    by (auto simp: in_set_conv_decomp)
  let ?g0 = "includeEntryModules M before g"
  from contract
  have "IsExecuted (m_id module) \<in> flagsOn (markModuleAndImpureDependenciesAsExecuted M module ?g0)"
    by (rule mark_self)
  moreover from contract
  have "flagsOn (markModuleAndImpureDependenciesAsExecuted M module ?g0)
      \<subseteq> flagsOn (includeEntryModules M after (markModuleAndImpureDependenciesAsExecuted M module ?g0))"
    by (rule includeEntryModules_keeps_flags)
  ultimately show "IsExecuted (m_id module) \<in> flagsOn (includeEntryModules M seeds g)"
    using drop by (auto simp: split includeEntryModules_split)
next
  fix before module after
  assume "seeds = before @ module # after \<and> preserveSignature module = PreserveFalse"
  then show "includeEntryModules M seeds g
           = includeEntryModules M after
               (markModuleAndImpureDependenciesAsExecuted M module (includeEntryModules M before g))"
    by (simp add: includeEntryModules_split)
next
  fix before module after d
  assume split: "seeds = before @ module # after \<and> preserveSignature module = PreserveFalse"
    and reached: "impurelyReached (modules (includeEntryModules M before g)) module d"
  let ?g0 = "includeEntryModules M before g"
  from contract reached
  have "IsExecuted d \<in> flagsOn (markModuleAndImpureDependenciesAsExecuted M module ?g0)"
    by (rule mark_reached(1))
  moreover from contract
  have "flagsOn (markModuleAndImpureDependenciesAsExecuted M module ?g0)
      \<subseteq> flagsOn (includeEntryModules M after (markModuleAndImpureDependenciesAsExecuted M module ?g0))"
    by (rule includeEntryModules_keeps_flags)
  ultimately show "IsExecuted d \<in> flagsOn (includeEntryModules M seeds g)"
    using split by (auto simp: includeEntryModules_split)
next
  fix before module after f
  assume "f \<in> flagsOn (markModuleAndImpureDependenciesAsExecuted M module
                            (includeEntryModules M before g))
                   - flagsOn (includeEntryModules M before g)"
  with contract show "f = IsExecuted (m_id module) \<or>
               (\<exists>d. impurelyReached (modules (includeEntryModules M before g)) module d \<and>
                    f = IsExecuted d)"
    by (rule mark_new_flags)
next
  fix f
  assume "\<forall>module \<in> set seeds. preserveSignature module = PreserveFalse"
    and "f \<in> flagsOn (includeEntryModules M seeds g) - flagsOn g"
  with contract show "\<exists>d. f = IsExecuted d"
    by (rule includeEntryModules_marks_only)
qed

lemma seedExample_dependencies:
  "impureDependencies (modules seedGraph) seedD = [''/e.js'', ''/g.js'']"
  by code_simp

lemma seedExample_flags:
  "flagsOn seedExample
     = {IsExecuted ''/a.js'', ExportIncluded ''/a.js'' ''main'',
        IsExecuted ''/d.js'', IsExecuted ''/e.js'', IsExecuted ''/g.js''}"
  by code_simp

theorem includeEntryModules_seed_witness:
  "ExportIncluded ''/a.js'' ''main'' \<in> flagsOn seedExample
   \<and> IsExecuted ''/d.js'' \<in> flagsOn seedExample
   \<and> IsExecuted ''/e.js'' \<in> flagsOn seedExample
   \<and> IsExecuted ''/g.js'' \<in> flagsOn seedExample
   \<and> IsExecuted ''/f.js'' \<notin> flagsOn seedExample
   \<and> IsExecuted ''/h.js'' \<notin> flagsOn seedExample
   \<and> ExportIncluded ''/d.js'' ''unused'' \<notin> flagsOn seedExample"
proof -
  have seeds: "[exampleA, seedD] = entryModules seedGraph @ implicitEntryModules seedGraph"
    by (simp add: seedGraph_def emptyGraph_def)
  have run: "includeEntryModules exampleMethods [exampleA, seedD] seedGraph = seedExample"
    by (simp add: seedExample_def seedGraph_def emptyGraph_def)
  have keep: "preserveSignature exampleA \<noteq> PreserveFalse" "''main'' \<in> set (exportNames exampleA)"
    "m_id exampleA = ''/a.js''"
    by (simp_all add: exampleA_def emptyModule_def)
  have drop: "preserveSignature seedD = PreserveFalse" "m_id seedD = ''/d.js''"
    by (simp_all add: seedD_def emptyModule_def)
  have before: "modules (includeEntryModules exampleMethods [exampleA] seedGraph) = modules seedGraph"
    by (simp add: exampleMethods_def)
  note seeded = includeEntryModules_seed [OF example_seedContract seeds, unfolded run]
  from seeded have a: "\<forall>module \<in> set [exampleA, seedD].
      (preserveSignature module \<noteq> PreserveFalse \<longrightarrow>
         (\<forall>x \<in> set (exportNames module).
            ExportIncluded (m_id module) x \<in> flagsOn seedExample)) \<and>
      (preserveSignature module = PreserveFalse \<longrightarrow>
         IsExecuted (m_id module) \<in> flagsOn seedExample)"
    by (rule conjunct1)
  from seeded [THEN conjunct2, THEN conjunct1, rule_format, of "[exampleA]" seedD "[]"] drop(1)
  have b: "\<forall>d. impurelyReached (modules (includeEntryModules exampleMethods [exampleA] seedGraph))
                seedD d \<longrightarrow> IsExecuted d \<in> flagsOn seedExample"
    by simp
  from a have "preserveSignature exampleA \<noteq> PreserveFalse \<longrightarrow>
         (\<forall>x \<in> set (exportNames exampleA).
            ExportIncluded (m_id exampleA) x \<in> flagsOn seedExample)"
    by simp
  with keep have 1: "ExportIncluded ''/a.js'' ''main'' \<in> flagsOn seedExample"
    by metis
  from a have "preserveSignature seedD = PreserveFalse \<longrightarrow>
         IsExecuted (m_id seedD) \<in> flagsOn seedExample"
    by simp
  with drop have 2: "IsExecuted ''/d.js'' \<in> flagsOn seedExample"
    by metis
  have "impurelyReached (modules seedGraph) seedD ''/e.js''"
    "impurelyReached (modules seedGraph) seedD ''/g.js''"
    by (simp_all add: impureDependencies_iff [symmetric] seedExample_dependencies)
  with b have 3: "IsExecuted ''/e.js'' \<in> flagsOn seedExample"
    and 4: "IsExecuted ''/g.js'' \<in> flagsOn seedExample"
    unfolding before by blast+
  have 5: "IsExecuted ''/f.js'' \<notin> flagsOn seedExample"
    "IsExecuted ''/h.js'' \<notin> flagsOn seedExample"
    "ExportIncluded ''/d.js'' ''unused'' \<notin> flagsOn seedExample"
    by (simp_all add: seedExample_flags)
  from 1 2 3 4 5 show ?thesis by blast
qed

section \<open>Inclusion: the check of implicit dependants\<close>

lemma checkDependants_Inr:
  "checkDependants flags ds = Inr () \<longleftrightarrow>
     (\<forall>dependant \<in> set ds. IsEntryPoint dependant \<in> flags \<or> IsIncluded dependant \<in> flags)"
  by (induction ds) auto

lemma checkDependants_Inl:
  "checkDependants flags ds = Inl e \<Longrightarrow>
     \<exists>dependant \<in> set ds. e = ErrImplicitDependantIsNotIncluded dependant \<and>
        IsEntryPoint dependant \<notin> flags \<and> IsIncluded dependant \<notin> flags"
  by (induction ds) (auto split: if_splits)

lemma checkImplicitEntryModules_Inr:
  "checkImplicitEntryModules flags ms = Inr () \<longleftrightarrow>
     (\<forall>module \<in> set ms. \<forall>dependant \<in> set (implicitlyLoadedAfter module).
        IsEntryPoint dependant \<in> flags \<or> IsIncluded dependant \<in> flags)"
proof (induction ms)
  case Nil
  then show ?case by simp
next
  case (Cons module rest)
  show ?case
  proof (cases "checkDependants flags (implicitlyLoadedAfter module)")
    case (Inl e)
    then have "checkDependants flags (implicitlyLoadedAfter module) \<noteq> Inr ()" by simp
    then have "\<not> (\<forall>dependant \<in> set (implicitlyLoadedAfter module).
        IsEntryPoint dependant \<in> flags \<or> IsIncluded dependant \<in> flags)"
      by (simp add: checkDependants_Inr)
    with Inl show ?thesis by auto
  next
    case (Inr u)
    then have "\<forall>dependant \<in> set (implicitlyLoadedAfter module).
        IsEntryPoint dependant \<in> flags \<or> IsIncluded dependant \<in> flags"
      by (simp add: checkDependants_Inr [symmetric])
    with Inr Cons.IH show ?thesis by simp
  qed
qed

lemma checkImplicitEntryModules_Inl:
  "checkImplicitEntryModules flags ms = Inl e \<Longrightarrow>
     \<exists>module \<in> set ms. \<exists>dependant \<in> set (implicitlyLoadedAfter module).
        e = ErrImplicitDependantIsNotIncluded dependant \<and>
        IsEntryPoint dependant \<notin> flags \<and> IsIncluded dependant \<notin> flags"
proof (induction ms)
  case Nil
  then show ?case by simp
next
  case (Cons module rest)
  show ?case
  proof (cases "checkDependants flags (implicitlyLoadedAfter module)")
    case (Inl e')
    with Cons.prems have "e' = e" by simp
    with Inl show ?thesis by (auto dest: checkDependants_Inl)
  next
    case (Inr u)
    with Cons.prems have "checkImplicitEntryModules flags rest = Inl e" by simp
    with Cons.IH show ?thesis by auto
  qed
qed

text \<open>
  C4. The last loop of \<^verbatim>\<open>includeStatements\<close>, run on the flags left by the inclusion
  passes: if some module in the implicitly-loaded-after set of some implicit entry module
  is neither an entry point nor included, the result is the fatal error for such a
  dependant; if every such dependant is an entry point or included, there is no error.
  \<^verbatim>\<open>includeStatements\<close> ends with exactly this check on the graph it has marked.
\<close>

theorem includeStatements_implicit_dependants:
  "((\<exists>module \<in> set ms. \<exists>dependant \<in> set (implicitlyLoadedAfter module).
        \<not> (IsEntryPoint dependant \<in> flags \<or> IsIncluded dependant \<in> flags)) \<longrightarrow>
      (\<exists>module \<in> set ms. \<exists>dependant \<in> set (implicitlyLoadedAfter module).
         checkImplicitEntryModules flags ms = Inl (ErrImplicitDependantIsNotIncluded dependant) \<and>
         \<not> (IsEntryPoint dependant \<in> flags \<or> IsIncluded dependant \<in> flags)))
   \<and> ((\<forall>module \<in> set ms. \<forall>dependant \<in> set (implicitlyLoadedAfter module).
        IsEntryPoint dependant \<in> flags \<or> IsIncluded dependant \<in> flags) \<longrightarrow>
      checkImplicitEntryModules flags ms = Inr ())
   \<and> (includeStatements_marking M options g = Some g3 \<longrightarrow>
      includeStatements M options g
        = Some (case checkImplicitEntryModules (flagsOn g3) (implicitEntryModules g3) of
                  Inl e \<Rightarrow> Inl e
                | Inr u \<Rightarrow> Inr g3))"
proof (intro conjI impI)
  assume bad: "\<exists>module \<in> set ms. \<exists>dependant \<in> set (implicitlyLoadedAfter module).
        \<not> (IsEntryPoint dependant \<in> flags \<or> IsIncluded dependant \<in> flags)"
  then have "checkImplicitEntryModules flags ms \<noteq> Inr ()"
    by (simp add: checkImplicitEntryModules_Inr)
  then obtain e where "checkImplicitEntryModules flags ms = Inl e"
    by (cases "checkImplicitEntryModules flags ms") auto
  then show "\<exists>module \<in> set ms. \<exists>dependant \<in> set (implicitlyLoadedAfter module).
         checkImplicitEntryModules flags ms = Inl (ErrImplicitDependantIsNotIncluded dependant) \<and>
         \<not> (IsEntryPoint dependant \<in> flags \<or> IsIncluded dependant \<in> flags)"
    by (fastforce dest: checkImplicitEntryModules_Inl)
next
  assume "\<forall>module \<in> set ms. \<forall>dependant \<in> set (implicitlyLoadedAfter module).
        IsEntryPoint dependant \<in> flags \<or> IsIncluded dependant \<in> flags"
  then show "checkImplicitEntryModules flags ms = Inr ()"
    by (simp add: checkImplicitEntryModules_Inr)
next
  assume "includeStatements_marking M options g = Some g3"
  then show "includeStatements M options g
        = Some (case checkImplicitEntryModules (flagsOn g3) (implicitEntryModules g3) of
                  Inl e \<Rightarrow> Inl e
                | Inr u \<Rightarrow> Inr g3)"
    by (simp add: includeStatements_def)
qed

lemma example_marking:
  "map_option (\<lambda>g. (flagsOn g, map implicitlyLoadedAfter (implicitEntryModules g)))
     (includeStatements_marking exampleMethods exampleOptions exampleGraph)
   = Some ({IsEntryPoint ''/a.js'', IsExecuted ''/a.js'', IsExecuted ''/b.js'', IsExecuted ''/c.js'',
      IsIncluded ''/a.js'', IsIncluded ''/b.js'', IsIncluded ''/c.js'',
      ExportIncluded ''/a.js'' ''main''}, [[''/a.js'']])"
  by code_simp

theorem includeStatements_implicit_dependants_witness:
  "checkImplicitEntryModules {IsEntryPoint ''/b.js''} [exampleC]
     = Inl (ErrImplicitDependantIsNotIncluded ''/a.js'')
   \<and> checkImplicitEntryModules {IsIncluded ''/a.js''} [exampleC] = Inr ()
   \<and> (\<exists>g3. includeStatements exampleMethods exampleOptions exampleGraph = Some (Inr g3)
         \<and> IsEntryPoint ''/a.js'' \<in> flagsOn g3)"
proof -
  from example_marking [unfolded map_option_eq_Some] obtain g3
    where marking: "includeStatements_marking exampleMethods exampleOptions exampleGraph = Some g3"
      and pair: "(flagsOn g3, map implicitlyLoadedAfter (implicitEntryModules g3))
        = ({IsEntryPoint ''/a.js'', IsExecuted ''/a.js'', IsExecuted ''/b.js'',
            IsExecuted ''/c.js'', IsIncluded ''/a.js'', IsIncluded ''/b.js'', IsIncluded ''/c.js'',
            ExportIncluded ''/a.js'' ''main''}, [[''/a.js'']])"
    by (elim exE conjE) (rule that)
  from pair have entry: "IsEntryPoint ''/a.js'' \<in> flagsOn g3"
    and after: "map implicitlyLoadedAfter (implicitEntryModules g3) = [[''/a.js'']]"
    by simp_all
  have "\<forall>ds \<in> set (map implicitlyLoadedAfter (implicitEntryModules g3)). ds = [''/a.js'']"
    unfolding after by simp
  with entry have ok: "\<forall>module \<in> set (implicitEntryModules g3).
      \<forall>dependant \<in> set (implicitlyLoadedAfter module).
        IsEntryPoint dependant \<in> flagsOn g3 \<or> IsIncluded dependant \<in> flagsOn g3"
    by simp
  note check = includeStatements_implicit_dependants
    [where ms = "implicitEntryModules g3" and flags = "flagsOn g3" and M = exampleMethods
       and options = exampleOptions and g = exampleGraph and ?g3.0 = g3]
  from check have c2: "(\<forall>module \<in> set (implicitEntryModules g3).
      \<forall>dependant \<in> set (implicitlyLoadedAfter module).
        IsEntryPoint dependant \<in> flagsOn g3 \<or> IsIncluded dependant \<in> flagsOn g3) \<longrightarrow>
      checkImplicitEntryModules (flagsOn g3) (implicitEntryModules g3) = Inr ()"
    by (rule conjunct1 [OF conjunct2])
  from check have c3: "includeStatements_marking exampleMethods exampleOptions exampleGraph = Some g3 \<longrightarrow>
      includeStatements exampleMethods exampleOptions exampleGraph
        = Some (case checkImplicitEntryModules (flagsOn g3) (implicitEntryModules g3) of
                  Inl e \<Rightarrow> Inl e
                | Inr u \<Rightarrow> Inr g3)"
    by (rule conjunct2 [OF conjunct2])
  from c2 ok have passed: "checkImplicitEntryModules (flagsOn g3) (implicitEntryModules g3) = Inr ()"
    by (rule mp)
  from c3 marking
  have "includeStatements exampleMethods exampleOptions exampleGraph
        = Some (case checkImplicitEntryModules (flagsOn g3) (implicitEntryModules g3) of
                  Inl e \<Rightarrow> Inl e
                | Inr u \<Rightarrow> Inr g3)"
    by (rule mp)
  then have "includeStatements exampleMethods exampleOptions exampleGraph = Some (Inr g3)"
    unfolding passed by simp
  with entry have run: "\<exists>g3. includeStatements exampleMethods exampleOptions exampleGraph = Some (Inr g3)
         \<and> IsEntryPoint ''/a.js'' \<in> flagsOn g3"
    by blast
  have bad: "\<exists>module \<in> set [exampleC]. \<exists>dependant \<in> set (implicitlyLoadedAfter module).
        \<not> (IsEntryPoint dependant \<in> {IsEntryPoint ''/b.js''} \<or>
           IsIncluded dependant \<in> {IsEntryPoint ''/b.js''})"
    by (simp add: exampleC_def emptyModule_def)
  note check' = includeStatements_implicit_dependants
    [where ms = "[exampleC]" and flags = "{IsEntryPoint ''/b.js''}" and M = exampleMethods
       and options = exampleOptions and g = exampleGraph and ?g3.0 = g3]
  from check' [THEN conjunct1] bad
  have "\<exists>module \<in> set [exampleC]. \<exists>dependant \<in> set (implicitlyLoadedAfter module).
         checkImplicitEntryModules {IsEntryPoint ''/b.js''} [exampleC]
           = Inl (ErrImplicitDependantIsNotIncluded dependant) \<and>
         \<not> (IsEntryPoint dependant \<in> {IsEntryPoint ''/b.js''} \<or>
            IsIncluded dependant \<in> {IsEntryPoint ''/b.js''})"
    by (rule mp)
  then have err: "checkImplicitEntryModules {IsEntryPoint ''/b.js''} [exampleC]
     = Inl (ErrImplicitDependantIsNotIncluded ''/a.js'')"
    by (simp add: exampleC_def emptyModule_def)
  have fine: "\<forall>module \<in> set [exampleC]. \<forall>dependant \<in> set (implicitlyLoadedAfter module).
        IsEntryPoint dependant \<in> {IsIncluded ''/a.js''} \<or>
        IsIncluded dependant \<in> {IsIncluded ''/a.js''}"
    by (simp add: exampleC_def emptyModule_def)
  note check'' = includeStatements_implicit_dependants
    [where ms = "[exampleC]" and flags = "{IsIncluded ''/a.js''}" and M = exampleMethods
       and options = exampleOptions and g = exampleGraph and ?g3.0 = g3]
  from check'' [THEN conjunct2, THEN conjunct1] fine
  have "checkImplicitEntryModules {IsIncluded ''/a.js''} [exampleC] = Inr ()"
    by (rule mp)
  with err run show ?thesis by blast
qed

section \<open>Linking: cycles are warnings\<close>

lemma missingExportWarnings_code:
  "w \<in> set (missingExportWarnings L b module) \<Longrightarrow> w_code w = ''NON_EXISTENT_EXPORT''"
  by (auto simp: missingExportWarnings_def split: option.splits if_splits)

lemma cycle_modules:
  "m_id cycleA = ''A''" "m_id cycleB = ''B''"
  "staticDependencies cycleA = [''B'']" "staticDependencies cycleB = [''A'']"
  "importDescriptions cycleA = []"
  "importDescriptions cycleB
     = [(''m'', \<lparr>imp_name = ''missing'', imp_module = ''A'', imp_start = 7\<rparr>)]"
  by (simp_all add: cycleA_def cycleB_def emptyModule_def staticDependencies_def
      List.map_filter_simps)

lemma cycle_linked:
  "forEachModule (linkDependencies exampleLinkMethods) (modules cycleGraph) ([], [])
     = Inr ([(''A'', cycleA, [''B'']), (''B'', cycleB, [''A''])], [])"
  by (simp add: exampleLinkMethods_def cycleGraph_def emptyGraph_def cycle_modules)

lemma cycle_analysed:
  "analyseModuleExecution exampleLinkMethods
     ([(''A'', cycleA, [''B'']), (''B'', cycleB, [''A''])], []) (entryModules cycleGraph)
   = ([cycleB, cycleA], [[''A'', ''B'']])"
  by (simp add: exampleLinkMethods_def cycleGraph_def emptyGraph_def cycle_modules)

lemma cycle_bound:
  "forEachModule (bindReferences exampleLinkMethods) [cycleB, cycleA]
     ([(''A'', cycleA, [''B'']), (''B'', cycleB, [''A''])], [])
   = Inr ([(''A'', cycleA, [''B'']), (''B'', cycleB, [''A''])], [''B'', ''A''])"
  by (simp add: exampleLinkMethods_def cycle_modules)

text \<open>
  C6. \<^verbatim>\<open>linkAndOrderModules\<close> ends early only when a module method
  (\<^verbatim>\<open>linkDependencies\<close>, \<^verbatim>\<open>bindReferences\<close>) ends in an error; whether and which cycles the
  analysis finds has no part in it. When the modules link, every cycle path that the
  analysis returns is handed to \<^verbatim>\<open>onwarn\<close>, in order, as the warning whose code is
  \<^verbatim>\<open>CIRCULAR_DEPENDENCY\<close>, whose cycle is that path and whose importer is its first id.
  Linking then goes on with the ordered modules of the analysis: they become
  \<^verbatim>\<open>this.modules\<close>, the references of each of them are bound, in that order, and the
  warnings for missing exports, with the code \<^verbatim>\<open>NON_EXISTENT_EXPORT\<close>, are computed over
  them in the bound state and follow the cycle warnings.
\<close>

theorem linkAndOrderModules_reports_cycles:
  "(forEachModule (linkDependencies L) (modules g) b = Inl e \<longrightarrow>
      linkAndOrderModules L g b = Inl (e, warnings g))
   \<and> (forEachModule (linkDependencies L) (modules g) b = Inr b1 \<and>
       analyseModuleExecution L b1 (entryModules g) = (ordered, cyclePaths) \<longrightarrow>
        (forEachModule (bindReferences L) ordered b1 = Inl e \<longrightarrow>
           linkAndOrderModules L g b
             = Inl (e, warnings g @ map circularDependencyWarning cyclePaths))
      \<and> (forEachModule (bindReferences L) ordered b1 = Inr b2 \<longrightarrow>
           linkAndOrderModules L g b
             = Inr (g\<lparr>warnings := warnings g @ map circularDependencyWarning cyclePaths
                          @ concat (map (missingExportWarnings L b2) ordered),
                      modules := ordered\<rparr>,
                    b2)))
   \<and> (\<forall>w \<in> set (concat (map (missingExportWarnings L b2) ordered)).
        w_code w = ''NON_EXISTENT_EXPORT'')
   \<and> (\<forall>cyclePath.
        w_code (circularDependencyWarning cyclePath) = ''CIRCULAR_DEPENDENCY'' \<and>
        w_cycle (circularDependencyWarning cyclePath) = Some cyclePath \<and>
        w_importer (circularDependencyWarning cyclePath)
          = (case cyclePath of [] \<Rightarrow> None | first # rest \<Rightarrow> Some first))"
proof (intro conjI impI allI ballI)
  assume "forEachModule (linkDependencies L) (modules g) b = Inl e"
  then show "linkAndOrderModules L g b = Inl (e, warnings g)"
    by (simp add: linkAndOrderModules_def)
next
  assume linked: "forEachModule (linkDependencies L) (modules g) b = Inr b1 \<and>
       analyseModuleExecution L b1 (entryModules g) = (ordered, cyclePaths)"
    and "forEachModule (bindReferences L) ordered b1 = Inl e"
  then show "linkAndOrderModules L g b
             = Inl (e, warnings g @ map circularDependencyWarning cyclePaths)"
    by (simp add: linkAndOrderModules_def)
next
  assume linked: "forEachModule (linkDependencies L) (modules g) b = Inr b1 \<and>
       analyseModuleExecution L b1 (entryModules g) = (ordered, cyclePaths)"
    and "forEachModule (bindReferences L) ordered b1 = Inr b2"
  then show "linkAndOrderModules L g b
             = Inr (g\<lparr>warnings := warnings g @ map circularDependencyWarning cyclePaths
                          @ concat (map (missingExportWarnings L b2) ordered),
                      modules := ordered\<rparr>,
                    b2)"
    by (simp add: linkAndOrderModules_def warnForMissingExports_def)
next
  fix w
  assume "w \<in> set (concat (map (missingExportWarnings L b2) ordered))"
  then show "w_code w = ''NON_EXISTENT_EXPORT''"
    by (auto dest: missingExportWarnings_code)
next
  fix cyclePath
  show "w_code (circularDependencyWarning cyclePath) = ''CIRCULAR_DEPENDENCY''"
    by (simp add: circularDependencyWarning_def)
  show "w_cycle (circularDependencyWarning cyclePath) = Some cyclePath"
    by (simp add: circularDependencyWarning_def)
  show "w_importer (circularDependencyWarning cyclePath)
          = (case cyclePath of [] \<Rightarrow> None | first # rest \<Rightarrow> Some first)"
    by (simp add: circularDependencyWarning_def)
qed

theorem linkAndOrderModules_reports_cycles_witness:
  "linkAndOrderModules exampleLinkMethods cycleGraph ([], [])
     = Inr (cycleGraph
              \<lparr>warnings :=
                 [\<lparr>w_code = ''CIRCULAR_DEPENDENCY'', w_cycle = Some [''A'', ''B''],
                   w_importer = Some ''A'', w_message = ''Circular dependency: A -> B'',
                   w_name = None, w_source = None, w_pos = None\<rparr>,
                  \<lparr>w_code = ''NON_EXISTENT_EXPORT'', w_cycle = None, w_importer = None,
                   w_message = ''Non-existent export '' @ [CHR 0x27] @ ''missing'' @ [CHR 0x27]
                     @ '' is imported from A'',
                   w_name = Some ''missing'', w_source = Some ''A'',
                   w_pos = Some (''B'', 7)\<rparr>],
               modules := [cycleB, cycleA]\<rparr>,
            ([(''A'', cycleA, [''B'']), (''B'', cycleB, [''A''])], [''B'', ''A'']))"
proof -
  let ?linked = "([(''A'', cycleA, [''B'']), (''B'', cycleB, [''A''])], [] :: moduleId list)"
  let ?table = "([(''A'', cycleA, [''B'']), (''B'', cycleB, [''A''])], [''B'', ''A''])"
  note run = linkAndOrderModules_reports_cycles
    [where L = exampleLinkMethods and g = cycleGraph and b = "([], [])" and ?b1.0 = ?linked
       and ordered = "[cycleB, cycleA]" and cyclePaths = "[[''A'', ''B'']]" and ?b2.0 = ?table
       and e = JsTypeError]
  from run cycle_linked cycle_analysed cycle_bound
  have "linkAndOrderModules exampleLinkMethods cycleGraph ([], [])
     = Inr (cycleGraph\<lparr>warnings := warnings cycleGraph
                @ map circularDependencyWarning [[''A'', ''B'']]
                @ concat (map (missingExportWarnings exampleLinkMethods ?table) [cycleB, cycleA]),
              modules := [cycleB, cycleA]\<rparr>,
            ?table)"
    by blast
  moreover have "warnings cycleGraph = []"
    by (simp add: cycleGraph_def emptyGraph_def)
  moreover have "map circularDependencyWarning [[''A'', ''B'']]
     = [\<lparr>w_code = ''CIRCULAR_DEPENDENCY'', w_cycle = Some [''A'', ''B''],
         w_importer = Some ''A'', w_message = ''Circular dependency: A -> B'',
         w_name = None, w_source = None, w_pos = None\<rparr>]"
    by (simp add: circularDependencyWarning_def)
  moreover have "concat (map (missingExportWarnings exampleLinkMethods ?table) [cycleB, cycleA])
     = [\<lparr>w_code = ''NON_EXISTENT_EXPORT'', w_cycle = None, w_importer = None,
         w_message = ''Non-existent export '' @ [CHR 0x27] @ ''missing'' @ [CHR 0x27]
           @ '' is imported from A'',
         w_name = Some ''missing'', w_source = Some ''A'',
         w_pos = Some (''B'', 7)\<rparr>]"
    by (simp add: missingExportWarnings_def exampleLinkMethods_def Object_keys_def cycle_modules)
  ultimately show ?thesis by simp
qed

section \<open>Chunks: preserve-modules and inline-dynamic-imports modes\<close>

lemma preserveModulesChunks_filter:
  "preserveModulesChunks C g ms =
     map (\<lambda>module. \<lparr>orderedModules = [module], chunk_entryModules = [module],
                     manualChunkAlias = None\<rparr>)
       (filter (needsOwnChunk g) ms)"
  by (induction ms) (simp_all add: newChunk_def)

text \<open>
  C7. In preserve-modules mode the chunks that \<^verbatim>\<open>generateChunks\<close> builds, before the
  facades, are exactly: for each module of \<^verbatim>\<open>this.modules\<close>, in order, that is included,
  or is an entry point, or has at least one included dynamic importer, one chunk with
  that module as its only module and its only entry module and no alias; the other
  modules get no chunk. The result of \<^verbatim>\<open>generateChunks\<close> is these chunks followed by
  their facades.
\<close>

theorem generateChunks_preserveModules:
  "preserveModules options \<Longrightarrow>
   generateChunks_chunks C options g
     = map (\<lambda>module. \<lparr>orderedModules = [module], chunk_entryModules = [module],
                       manualChunkAlias = None\<rparr>)
         (filter (\<lambda>module. IsIncluded (m_id module) \<in> flagsOn g \<or>
                            IsEntryPoint (m_id module) \<in> flagsOn g \<or>
                            includedDynamicImporters module \<noteq> [])
            (modules g))
   \<and> generateChunks C options g
     = generateChunks_chunks C options g
       @ concat (map (generateFacades C) (generateChunks_chunks C options g))"
proof
  assume "preserveModules options"
  moreover have "needsOwnChunk g = (\<lambda>module. IsIncluded (m_id module) \<in> flagsOn g \<or>
                            IsEntryPoint (m_id module) \<in> flagsOn g \<or>
                            includedDynamicImporters module \<noteq> [])"
    by (rule ext) (simp add: needsOwnChunk_def)
  ultimately show "generateChunks_chunks C options g
     = map (\<lambda>module. \<lparr>orderedModules = [module], chunk_entryModules = [module],
                       manualChunkAlias = None\<rparr>)
         (filter (\<lambda>module. IsIncluded (m_id module) \<in> flagsOn g \<or>
                            IsEntryPoint (m_id module) \<in> flagsOn g \<or>
                            includedDynamicImporters module \<noteq> [])
            (modules g))"
    by (simp add: generateChunks_chunks_def preserveModulesChunks_filter)
  show "generateChunks C options g
     = generateChunks_chunks C options g
       @ concat (map (generateFacades C) (generateChunks_chunks C options g))"
    by (simp add: generateChunks_def Let_def)
qed

theorem generateChunks_preserveModules_witness:
  "generateChunks_chunks exampleChunkMethods (exampleOptions\<lparr>preserveModules := True\<rparr>)
      exampleIncluded
     = [\<lparr>orderedModules = [exampleA], chunk_entryModules = [exampleA], manualChunkAlias = None\<rparr>,
        \<lparr>orderedModules = [exampleC], chunk_entryModules = [exampleC], manualChunkAlias = None\<rparr>]"
proof -
  have on: "preserveModules (exampleOptions\<lparr>preserveModules := True\<rparr>)" by simp
  have ids: "m_id exampleA = ''/a.js''" "m_id exampleB = ''/b.js''" "m_id exampleC = ''/c.js''"
    "includedDynamicImporters exampleB = []"
    by (simp_all add: exampleA_def exampleB_def exampleC_def emptyModule_def)
  from generateChunks_preserveModules [OF on, of exampleChunkMethods exampleIncluded]
  show ?thesis
    by (simp add: exampleIncluded_def exampleGraph_def ids)
qed

lemma set_sortByExecutionOrder: "set (sortByExecutionOrder ms) = set ms"
  by (simp add: sortByExecutionOrder_def)

lemma length_sortByExecutionOrder: "length (sortByExecutionOrder ms) = length ms"
  by (simp add: sortByExecutionOrder_def)

lemma sorted_sortByExecutionOrder: "sorted (map execIndex (sortByExecutionOrder ms))"
  by (simp add: sortByExecutionOrder_def)

text \<open>
  C2 (as amended). With \<^verbatim>\<open>inlineDynamicImports\<close> on and \<^verbatim>\<open>preserveModules\<close> off,
  \<^verbatim>\<open>generateChunks\<close> builds exactly one chunk before the facades; it has no manual chunk
  alias, and its module list is all of \<^verbatim>\<open>this.modules\<close>, whether included or not, each as
  often as there, in execution order.
\<close>

theorem generateChunks_inlineDynamicImports:
  "inlineDynamicImports options \<and> \<not> preserveModules options \<Longrightarrow>
   \<exists>c. generateChunks_chunks C options g = [c] \<and>
       manualChunkAlias c = None \<and>
       orderedModules c = sortByExecutionOrder (modules g) \<and>
       set (orderedModules c) = set (modules g) \<and>
       length (orderedModules c) = length (modules g) \<and>
       sorted (map execIndex (orderedModules c))"
  by (simp add: generateChunks_chunks_def newChunk_def Object_keys_def
      set_sortByExecutionOrder length_sortByExecutionOrder sorted_sortByExecutionOrder)

theorem generateChunks_inlineDynamicImports_witness:
  "generateChunks_chunks exampleChunkMethods (exampleOptions\<lparr>inlineDynamicImports := True\<rparr>)
      exampleIncluded
     = [\<lparr>orderedModules = [exampleB, exampleA, exampleC], chunk_entryModules = [],
         manualChunkAlias = None\<rparr>]"
proof -
  have on: "inlineDynamicImports (exampleOptions\<lparr>inlineDynamicImports := True\<rparr>) \<and>
      \<not> preserveModules (exampleOptions\<lparr>inlineDynamicImports := True\<rparr>)"
    by (simp add: exampleOptions_def)
  have order: "sortByExecutionOrder [exampleB, exampleA, exampleC] = [exampleB, exampleA, exampleC]"
    by (simp add: sortByExecutionOrder_def exampleA_def exampleB_def exampleC_def emptyModule_def)
  from generateChunks_inlineDynamicImports [OF on, of exampleChunkMethods exampleIncluded]
  obtain c where c: "generateChunks_chunks exampleChunkMethods
        (exampleOptions\<lparr>inlineDynamicImports := True\<rparr>) exampleIncluded = [c]"
      "manualChunkAlias c = None"
      "orderedModules c = sortByExecutionOrder (modules exampleIncluded)"
    by (elim exE conjE) (rule that)
  have "chunk_entryModules c = []"
    using c(1) by (auto simp: generateChunks_chunks_def newChunk_def exampleChunkMethods_def
        exampleOptions_def)
  with c(2,3) order have "c = \<lparr>orderedModules = [exampleB, exampleA, exampleC],
      chunk_entryModules = [], manualChunkAlias = None\<rparr>"
    by (simp add: exampleIncluded_def exampleGraph_def)
  with c(1) show ?thesis by simp
qed

text \<open>
  C2 with "exactly the included modules": it fails on the example, where \<^verbatim>\<open>/b.js\<close> is not
  included and is in the module list of the one chunk.
\<close>

theorem generateChunks_inline_not_included_counterexample:
  "inlineDynamicImports (exampleOptions\<lparr>inlineDynamicImports := True\<rparr>)
   \<and> \<not> preserveModules (exampleOptions\<lparr>inlineDynamicImports := True\<rparr>)
   \<and> modules exampleIncluded = [exampleB, exampleA, exampleC]
   \<and> IsIncluded (m_id exampleB) \<notin> flagsOn exampleIncluded
   \<and> generateChunks_chunks exampleChunkMethods (exampleOptions\<lparr>inlineDynamicImports := True\<rparr>)
        exampleIncluded
      = [\<lparr>orderedModules = [exampleB, exampleA, exampleC], chunk_entryModules = [],
          manualChunkAlias = None\<rparr>]"
  by (simp add: generateChunks_chunks_def newChunk_def exampleOptions_def exampleIncluded_def
      exampleGraph_def Object_keys_def sortByExecutionOrder_def exampleChunkMethods_def
      exampleA_def exampleB_def exampleC_def emptyModule_def)

end
